theory Spec2Isabelle
  imports Main "HOL-Library.Word" "HOL-Library.Sublist"
begin

section \<open>Data model (internal/models)\<close>

text \<open>
  A \<^verbatim>\<open>time.Time\<close> is modelled by the instant it denotes: the number of nanoseconds
  since Go's zero time (January 1, year 1, 00:00:00 UTC). \<^verbatim>\<open>IsZero\<close>, \<^verbatim>\<open>Before\<close> and \<^verbatim>\<open>After\<close>
  only look at the instant. A \<^verbatim>\<open>time.Duration\<close> is an int64 count of nanoseconds, and
  \<^verbatim>\<open>Time.Sub\<close> saturates at its bounds.
\<close>

type_synonym time = int
type_synonym duration = int

definition IsZero :: "time \<Rightarrow> bool" where
  "IsZero t = (t = 0)"

definition Before :: "time \<Rightarrow> time \<Rightarrow> bool" where
  "Before t u = (t < u)"

definition After :: "time \<Rightarrow> time \<Rightarrow> bool" where
  "After t u = (u < t)"

definition minDuration :: duration where
  "minDuration = - (2 ^ 63)"

definition maxDuration :: duration where
  "maxDuration = 2 ^ 63 - 1"

definition Sub :: "time \<Rightarrow> time \<Rightarrow> duration" where
  "Sub t u =
     (let d = t - u in
      if minDuration \<le> d \<and> d \<le> maxDuration then d
      else if Before t u then minDuration
      else maxDuration)"

text \<open>Go's \<^verbatim>\<open>int\<close> on a 64-bit platform: addition wraps around.\<close>

type_synonym go_int = "64 word"

record Usage =
  InputTokens :: go_int
  OutputTokens :: go_int
  CacheCreationInputTokens :: go_int
  CacheReadInputTokens :: go_int
  ServiceTier :: string

record MessageContent =
  mc_Type :: string
  mc_Text :: string
  mc_Thinking :: string
  mc_ID :: string
  mc_Name :: string
  mc_Input :: string

record AssistantMessage =
  am_ID :: string
  am_Type :: string
  am_Role :: string
  am_Model :: string
  am_Content :: "MessageContent list"
  am_Usage :: "Usage option"

record UserMessage =
  um_Role :: string
  um_Content :: string

record ToolResult =
  tr_ToolUseID :: string
  tr_Type :: string
  tr_Content :: string

text \<open>
  The field \<^verbatim>\<open>Content interface{}\<close> of a message holds nil, a \<^verbatim>\<open>*UserMessage\<close>, a
  \<^verbatim>\<open>[]ToolResult\<close> or an \<^verbatim>\<open>*AssistantMessage\<close>.
\<close>

datatype content =
  Nil_content
  | UserMessage_content UserMessage
  | ToolResults_content "ToolResult list"
  | AssistantMessage_content AssistantMessage

definition MessageTypeUser :: string where
  "MessageTypeUser = ''user''"

definition MessageTypeAssistant :: string where
  "MessageTypeAssistant = ''assistant''"

record Message =
  msg_UUID :: string
  msg_ParentUUID :: "string option"
  msg_SessionID :: string
  msg_Type :: string
  msg_UserType :: string
  msg_Timestamp :: time
  msg_RequestID :: string
  msg_Version :: string
  msg_CWD :: string
  msg_Message :: string
  msg_Content :: content

record Session =
  ses_ID :: string
  ses_ProjectID :: string
  ses_StartTime :: time
  ses_EndTime :: time
  ses_Messages :: "Message list"

text \<open>The zero value \<^verbatim>\<open>&models.Session{}\<close>.\<close>

definition zero_Session :: Session where
  "zero_Session =
     \<lparr>ses_ID = [], ses_ProjectID = [], ses_StartTime = 0, ses_EndTime = 0, ses_Messages = []\<rparr>"

definition AddMessage :: "Session \<Rightarrow> Message \<Rightarrow> Session" where
  "AddMessage s msg =
     (let s1 = s\<lparr>ses_Messages := ses_Messages s @ [msg]\<rparr>;
          s2 = (if IsZero (ses_StartTime s1) \<or> Before (msg_Timestamp msg) (ses_StartTime s1)
                then s1\<lparr>ses_StartTime := msg_Timestamp msg\<rparr> else s1)
      in if After (msg_Timestamp msg) (ses_EndTime s2)
         then s2\<lparr>ses_EndTime := msg_Timestamp msg\<rparr> else s2)"

definition GetMessageCount :: "Session \<Rightarrow> nat" where
  "GetMessageCount s = length (ses_Messages s)"

definition GetDuration :: "Session \<Rightarrow> duration" where
  "GetDuration s =
     (if IsZero (ses_StartTime s) \<or> IsZero (ses_EndTime s) then 0
      else Sub (ses_EndTime s) (ses_StartTime s))"

text \<open>
  The body of the loop of \<^verbatim>\<open>GetTokenUsage\<close>: the named results \<^verbatim>\<open>input\<close> and \<^verbatim>\<open>output\<close>
  are the accumulator.
\<close>

definition GetTokenUsage_step :: "go_int \<times> go_int \<Rightarrow> Message \<Rightarrow> go_int \<times> go_int" where
  "GetTokenUsage_step acc msg =
     (if msg_Type msg = MessageTypeAssistant \<and> msg_Content msg \<noteq> Nil_content then
        (case msg_Content msg of
           AssistantMessage_content assistantMsg \<Rightarrow>
             (case am_Usage assistantMsg of
                Some usage \<Rightarrow>
                  (fst acc + (InputTokens usage + CacheReadInputTokens usage),
                   snd acc + OutputTokens usage)
              | None \<Rightarrow> acc)
         | _ \<Rightarrow> acc)
      else acc)"

definition GetTokenUsage :: "Session \<Rightarrow> go_int \<times> go_int" where
  "GetTokenUsage s = foldl GetTokenUsage_step (0, 0) (ses_Messages s)"

section \<open>Scan options and the date filter (internal/reader)\<close>

record ScanOptions =
  StartDate :: "time option"
  EndDate :: "time option"
  ProjectPaths :: "string list"
  IncludeTodos :: bool
  IncludeShellSnapshots :: bool
  MaxSessions :: int

definition shouldIncludeSession :: "ScanOptions \<Rightarrow> Session \<Rightarrow> bool" where
  "shouldIncludeSession options session =
     (if StartDate options \<noteq> None \<and> Before (ses_EndTime session) (the (StartDate options))
      then False
      else if EndDate options \<noteq> None \<and> After (ses_EndTime session) (the (EndDate options))
      then False
      else True)"

section \<open>Library functions used by the reader\<close>

subsection \<open>Package strings and path/filepath\<close>

definition HasSuffix :: "string \<Rightarrow> string \<Rightarrow> bool" where
  "HasSuffix s suf = (length suf \<le> length s \<and> drop (length s - length suf) s = suf)"

definition TrimSuffix :: "string \<Rightarrow> string \<Rightarrow> string" where
  "TrimSuffix s suf = (if HasSuffix s suf then take (length s - length suf) s else s)"

fun Contains :: "string \<Rightarrow> string \<Rightarrow> bool" where
  "Contains [] substr = (substr = [])"
| "Contains (c # cs) substr = (prefix substr (c # cs) \<or> Contains cs substr)"

text \<open>
  \<^verbatim>\<open>strings.Split(s, sep)\<close> for a separator that is not empty: \<open>s\<close> is cut at every
  occurrence of \<open>sep\<close>, found from the left and not overlapping. \<open>cur\<close> collects the
  piece being read. (With an empty separator Go cuts after each UTF-8 sequence; the
  reader never does that, and the model cuts after each byte.)
\<close>

function Split_from :: "string \<Rightarrow> string \<Rightarrow> string \<Rightarrow> string list" where
  "Split_from sep cur [] = [cur]"
| "Split_from sep cur (c # cs) =
     (if sep \<noteq> [] \<and> prefix sep (c # cs)
      then cur # Split_from sep [] (drop (length sep) (c # cs))
      else Split_from sep (cur @ [c]) cs)"
  by pat_completeness auto
termination
  by (relation "measure (\<lambda>(sep, cur, s). length s)") auto

definition Split :: "string \<Rightarrow> string \<Rightarrow> string list" where
  "Split s sep = (if sep = [] then map (\<lambda>c. [c]) s else Split_from sep [] s)"

fun Join_strings :: "string list \<Rightarrow> string \<Rightarrow> string" where
  "Join_strings [] sep = []"
| "Join_strings [x] sep = x"
| "Join_strings (x # y # ys) sep = x @ sep @ Join_strings (y # ys) sep"

text \<open>\<^verbatim>\<open>strings.ReplaceAll(s, old, new)\<close> for \<open>old\<close> not empty.\<close>

definition ReplaceAll :: "string \<Rightarrow> string \<Rightarrow> string \<Rightarrow> string" where
  "ReplaceAll s old new = Join_strings (Split s old) new"

text \<open>
  \<^verbatim>\<open>filepath.Join\<close> of two elements: empty elements are ignored, the others are joined
  by the separator. (The cleaning of the result, which removes \<^verbatim>\<open>.\<close>, \<^verbatim>\<open>..\<close> and doubled
  separators, is not modelled: directory entries have plain names.)
\<close>

definition filepath_Join :: "string \<Rightarrow> string \<Rightarrow> string" where
  "filepath_Join a b = (if a = [] then b else if b = [] then a else a @ ''/'' @ b)"

subsection \<open>The file system and the JSON decoder\<close>

text \<open>
  What the reader observes of the operating system is a parameter of the model:
  \<^item> \<open>Stat_IsNotExist path\<close>: \<^verbatim>\<open>os.Stat(path)\<close> fails with an error for which
    \<^verbatim>\<open>os.IsNotExist\<close> holds;
  \<^item> \<open>ReadDir path\<close>: the entries \<^verbatim>\<open>os.ReadDir(path)\<close> lists, \<open>None\<close> when it fails;
  \<^item> \<open>Open_Scan path\<close>: \<open>None\<close> when \<^verbatim>\<open>os.Open(path)\<close> fails; otherwise the lines that
    \<^verbatim>\<open>bufio.Scanner\<close> yields before \<^verbatim>\<open>Scan\<close> returns false, and whether \<^verbatim>\<open>scanner.Err()\<close>
    is an error then (a line over the 10 MB buffer, a read error);
  \<^item> \<open>ReadFile path\<close>: the contents \<^verbatim>\<open>os.ReadFile(path)\<close> returns, \<open>None\<close> when it fails.
\<close>

record DirEntry =
  de_Name :: string
  de_IsDir :: bool

record FileSystem =
  Stat_IsNotExist :: "string \<Rightarrow> bool"
  ReadDir :: "string \<Rightarrow> DirEntry list option"
  Open_Scan :: "string \<Rightarrow> (string list \<times> bool) option"
  ReadFile :: "string \<Rightarrow> string option"

record Todo =
  todo_ID :: string
  todo_Content :: string
  todo_Status :: string
  todo_Priority :: string

record TodoList =
  tl_SessionID :: string
  tl_AgentID :: string
  tl_Todos :: "Todo list"

text \<open>
  \<^verbatim>\<open>json.Unmarshal\<close> is a parameter too, one function for each type the code decodes
  into; \<open>None\<close> stands for a returned error. \<open>Unmarshal_envelope\<close> decodes the anonymous
  struct of \<^verbatim>\<open>ParseContent\<close> and returns its \<^verbatim>\<open>Role\<close> and its raw \<^verbatim>\<open>Content\<close>.
\<close>

record Decoder =
  Unmarshal_Message :: "string \<Rightarrow> Message option"
  Unmarshal_envelope :: "string \<Rightarrow> (string \<times> string) option"
  Unmarshal_string :: "string \<Rightarrow> string option"
  Unmarshal_ToolResults :: "string \<Rightarrow> ToolResult list option"
  Unmarshal_AssistantMessage :: "string \<Rightarrow> AssistantMessage option"
  Unmarshal_Todos :: "string \<Rightarrow> Todo list option"

datatype error =
  UnmarshalError
  | FailedToOpenFile
  | ErrorReadingFile
  | NoMessagesFound
  | ProjectsDirectoryNotFound
  | FailedToReadProjectsDirectory
  | ReadDirError
  | FailedToReadTodoFile
  | FailedToParseTodoJSON

text \<open>The lines written to standard error, without the text of the error.\<close>

datatype warning =
  Warn_parse_line nat
  | Warn_parse_content string
  | Warn_read_session_file string error
  | Warn_scan_sessions string error
  | Warn_scan_todos string error
  | Warn_read_todo_file string error

section \<open>Message.ParseContent\<close>

definition ParseContent :: "Decoder \<Rightarrow> Message \<Rightarrow> error option \<times> Message" where
  "ParseContent J m =
     (if msg_Type m = MessageTypeUser then
        (if msg_UserType m = ''external'' then
           (case Unmarshal_envelope J (msg_Message m) of
              None \<Rightarrow> (Some UnmarshalError, m)
            | Some (role, raw) \<Rightarrow>
                (case Unmarshal_string J raw of
                   Some content \<Rightarrow>
                     (None, m\<lparr>msg_Content :=
                        UserMessage_content \<lparr>um_Role = role, um_Content = content\<rparr>\<rparr>)
                 | None \<Rightarrow>
                     (case Unmarshal_ToolResults J raw of
                        Some toolResults \<Rightarrow> (None, m\<lparr>msg_Content := ToolResults_content toolResults\<rparr>)
                      | None \<Rightarrow> (None, m))))
         else (None, m))
      else if msg_Type m = MessageTypeAssistant then
        (case Unmarshal_AssistantMessage J (msg_Message m) of
           None \<Rightarrow> (Some UnmarshalError, m)
         | Some msg \<Rightarrow> (None, m\<lparr>msg_Content := AssistantMessage_content msg\<rparr>))
      else (None, m))"

section \<open>JSONLReader.ReadSession\<close>

text \<open>
  One pass of the loop body for each scanned line. The struct tag of the field
  \<^verbatim>\<open>Content\<close> excludes it from JSON: decoding a line never sets it, so the fresh
  message has it nil.
\<close>

fun ReadSession_loop :: "Decoder \<Rightarrow> string list \<Rightarrow> nat \<Rightarrow> Session \<Rightarrow> warning list \<times> Session" where
  "ReadSession_loop J [] lineNum session = ([], session)"
| "ReadSession_loop J (line # rest) lineNum session =
     (if length line = 0 then ReadSession_loop J rest (lineNum + 1) session
      else
        (case Unmarshal_Message J line of
           None \<Rightarrow>
             (let (ws, s) = ReadSession_loop J rest (lineNum + 1) session
              in (Warn_parse_line (lineNum + 1) # ws, s))
         | Some decoded \<Rightarrow>
             (let msg0 = decoded\<lparr>msg_Content := Nil_content\<rparr>;
                  session1 = (if ses_ID session = [] \<and> msg_SessionID msg0 \<noteq> []
                              then session\<lparr>ses_ID := msg_SessionID msg0\<rparr> else session);
                  (err, msg) = ParseContent J msg0;
                  w = (case err of None \<Rightarrow> [] | Some e \<Rightarrow> [Warn_parse_content (msg_UUID msg)]);
                  (ws, s) = ReadSession_loop J rest (lineNum + 1) (AddMessage session1 msg)
              in (w @ ws, s))))"

definition ReadSession :: "Decoder \<Rightarrow> FileSystem \<Rightarrow> string \<Rightarrow> warning list \<times> (error + Session)" where
  "ReadSession J fs filePath =
     (case Open_Scan fs filePath of
        None \<Rightarrow> ([], Inl FailedToOpenFile)
      | Some (lines, scan_err) \<Rightarrow>
          (let (ws, session) = ReadSession_loop J lines 0 zero_Session
           in if scan_err then (ws, Inl ErrorReadingFile)
              else if length (ses_Messages session) = 0 then (ws, Inl NoMessagesFound)
              else (ws, Inr session)))"

section \<open>TodoReader.Read\<close>

definition TodoReader_Read :: "Decoder \<Rightarrow> FileSystem \<Rightarrow> string \<Rightarrow> error + Todo list" where
  "TodoReader_Read J fs filePath =
     (case ReadFile fs filePath of
        None \<Rightarrow> Inl FailedToReadTodoFile
      | Some content \<Rightarrow>
          (case Unmarshal_Todos J content of
             None \<Rightarrow> Inl FailedToParseTodoJSON
           | Some todos \<Rightarrow> Inr todos))"

section \<open>Project (internal/models)\<close>

record Project =
  prj_ID :: string
  prj_Path :: string
  prj_EncodedPath :: string
  prj_Sessions :: "Session list"
  prj_TodoLists :: "TodoList list"

definition NewProject :: "string \<Rightarrow> Project" where
  "NewProject encodedPath =
     \<lparr>prj_ID = encodedPath, prj_Path = ReplaceAll encodedPath ''-'' ''/'',
      prj_EncodedPath = encodedPath, prj_Sessions = [], prj_TodoLists = []\<rparr>"

definition AddSession :: "Project \<Rightarrow> Session \<Rightarrow> Project" where
  "AddSession p session =
     p\<lparr>prj_Sessions := prj_Sessions p @ [session\<lparr>ses_ProjectID := prj_ID p\<rparr>]\<rparr>"

definition AddTodoList :: "Project \<Rightarrow> TodoList \<Rightarrow> Project" where
  "AddTodoList p todoList = p\<lparr>prj_TodoLists := prj_TodoLists p @ [todoList]\<rparr>"

section \<open>Scanner\<close>

record Scanner =
  basePath :: string
  options :: ScanOptions

fun shouldProcessProject_loop :: "string \<Rightarrow> string list \<Rightarrow> bool" where
  "shouldProcessProject_loop decodedPath [] = False"
| "shouldProcessProject_loop decodedPath (filterPath # rest) =
     (if Contains decodedPath filterPath then True
      else shouldProcessProject_loop decodedPath rest)"

definition shouldProcessProject :: "Scanner \<Rightarrow> string \<Rightarrow> bool" where
  "shouldProcessProject s encodedPath =
     (if length (ProjectPaths (options s)) = 0 then True
      else shouldProcessProject_loop (ReplaceAll encodedPath ''-'' ''/'') (ProjectPaths (options s)))"

text \<open>
  The loop of \<^verbatim>\<open>scanProjectSessions\<close> over the entries of a project directory, with the
  slice \<^verbatim>\<open>sessions\<close> as accumulator. Each function returns the warnings it writes, in
  order, next to its result.
\<close>

fun scanProjectSessions_loop ::
  "Decoder \<Rightarrow> FileSystem \<Rightarrow> string \<Rightarrow> string \<Rightarrow> DirEntry list \<Rightarrow> Session list
     \<Rightarrow> warning list \<times> Session list" where
  "scanProjectSessions_loop J fs projectPath projectID [] sessions = ([], sessions)"
| "scanProjectSessions_loop J fs projectPath projectID (entry # rest) sessions =
     (if de_IsDir entry \<or> \<not> HasSuffix (de_Name entry) ''.jsonl''
      then scanProjectSessions_loop J fs projectPath projectID rest sessions
      else
        (let filePath = filepath_Join projectPath (de_Name entry);
             (ws, r) = ReadSession J fs filePath
         in case r of
              Inl err \<Rightarrow>
                (let (ws', ss) = scanProjectSessions_loop J fs projectPath projectID rest sessions
                 in (ws @ Warn_read_session_file filePath err # ws', ss))
            | Inr session \<Rightarrow>
                (let (ws', ss) =
                       scanProjectSessions_loop J fs projectPath projectID rest
                         (sessions @ [session\<lparr>ses_ProjectID := projectID\<rparr>])
                 in (ws @ ws', ss))))"

definition scanProjectSessions ::
  "Decoder \<Rightarrow> FileSystem \<Rightarrow> string \<Rightarrow> string \<Rightarrow> warning list \<times> (error + Session list)" where
  "scanProjectSessions J fs projectPath projectID =
     (case ReadDir fs projectPath of
        None \<Rightarrow> ([], Inl ReadDirError)
      | Some entries \<Rightarrow>
          (let (ws, sessions) = scanProjectSessions_loop J fs projectPath projectID entries []
           in (ws, Inr sessions)))"

fun scanProjectTodos_loop ::
  "Decoder \<Rightarrow> FileSystem \<Rightarrow> string \<Rightarrow> DirEntry list \<Rightarrow> TodoList list
     \<Rightarrow> warning list \<times> TodoList list" where
  "scanProjectTodos_loop J fs todosPath [] todoLists = ([], todoLists)"
| "scanProjectTodos_loop J fs todosPath (entry # rest) todoLists =
     (if de_IsDir entry \<or> \<not> HasSuffix (de_Name entry) ''.json''
      then scanProjectTodos_loop J fs todosPath rest todoLists
      else
        (case Split (de_Name entry) ''-agent-'' of
           [sessionID, part1] \<Rightarrow>
             (let filePath = filepath_Join todosPath (de_Name entry)
              in case TodoReader_Read J fs filePath of
                   Inl err \<Rightarrow>
                     (let (ws, tls) = scanProjectTodos_loop J fs todosPath rest todoLists
                      in (Warn_read_todo_file filePath err # ws, tls))
                 | Inr todos \<Rightarrow>
                     (if length todos > 0
                      then scanProjectTodos_loop J fs todosPath rest
                             (todoLists @
                                [\<lparr>tl_SessionID = sessionID,
                                  tl_AgentID = TrimSuffix part1 ''.json'',
                                  tl_Todos = todos\<rparr>])
                      else scanProjectTodos_loop J fs todosPath rest todoLists))
         | _ \<Rightarrow> scanProjectTodos_loop J fs todosPath rest todoLists))"

definition scanProjectTodos ::
  "Decoder \<Rightarrow> FileSystem \<Rightarrow> Scanner \<Rightarrow> string \<Rightarrow> warning list \<times> (error + TodoList list)" where
  "scanProjectTodos J fs s projectID =
     (let todosPath = filepath_Join (basePath s) ''todos''
      in if Stat_IsNotExist fs todosPath then ([], Inr [])
         else
           (case ReadDir fs todosPath of
              None \<Rightarrow> ([], Inl ReadDirError)
            | Some entries \<Rightarrow>
                (let (ws, todoLists) = scanProjectTodos_loop J fs todosPath entries []
                 in (ws, Inr todoLists))))"

text \<open>
  The inner loop of \<^verbatim>\<open>ScanProjects\<close> (date filter and session limit) over the sessions of
  one project. The flag of the result says that the limit was reached, where the source
  returns from \<^verbatim>\<open>ScanProjects\<close>.
\<close>

fun ScanProjects_sessions ::
  "Scanner \<Rightarrow> Session list \<Rightarrow> Project \<Rightarrow> int \<Rightarrow> Project \<times> int \<times> bool" where
  "ScanProjects_sessions s [] project sessionCount = (project, sessionCount, False)"
| "ScanProjects_sessions s (session # rest) project sessionCount =
     (if shouldIncludeSession (options s) session then
        (let project' = AddSession project session;
             sessionCount' = sessionCount + 1
         in if MaxSessions (options s) > 0 \<and> sessionCount' \<ge> MaxSessions (options s)
            then (project', sessionCount', True)
            else ScanProjects_sessions s rest project' sessionCount')
      else ScanProjects_sessions s rest project sessionCount)"

text \<open>The part of the loop body that scans the todo lists, when requested.\<close>

definition ScanProjects_todos ::
  "Decoder \<Rightarrow> FileSystem \<Rightarrow> Scanner \<Rightarrow> string \<Rightarrow> Project \<Rightarrow> warning list \<times> Project" where
  "ScanProjects_todos J fs s name project =
     (if IncludeTodos (options s) then
        (case scanProjectTodos J fs s (prj_ID project) of
           (ws, Inl err) \<Rightarrow> (ws @ [Warn_scan_todos name err], project)
         | (ws, Inr todos) \<Rightarrow> (ws, foldl AddTodoList project todos))
      else ([], project))"

text \<open>
  The outer loop of \<^verbatim>\<open>ScanProjects\<close> over the entries of the projects directory, with
  \<^verbatim>\<open>projects\<close> and \<^verbatim>\<open>sessionCount\<close> as accumulators.
\<close>

fun ScanProjects_loop ::
  "Decoder \<Rightarrow> FileSystem \<Rightarrow> Scanner \<Rightarrow> string \<Rightarrow> DirEntry list \<Rightarrow> Project list \<Rightarrow> int
     \<Rightarrow> warning list \<times> Project list" where
  "ScanProjects_loop J fs s projectsPath [] projects sessionCount = ([], projects)"
| "ScanProjects_loop J fs s projectsPath (entry # rest) projects sessionCount =
     (if \<not> de_IsDir entry then ScanProjects_loop J fs s projectsPath rest projects sessionCount
      else if \<not> shouldProcessProject s (de_Name entry)
      then ScanProjects_loop J fs s projectsPath rest projects sessionCount
      else
        (let project = NewProject (de_Name entry);
             projectPath = filepath_Join projectsPath (de_Name entry);
             (ws, r) = scanProjectSessions J fs projectPath (prj_ID project)
         in case r of
              Inl err \<Rightarrow>
                (let (ws', ps) = ScanProjects_loop J fs s projectsPath rest projects sessionCount
                 in (ws @ Warn_scan_sessions (de_Name entry) err # ws', ps))
            | Inr sessions \<Rightarrow>
                (case ScanProjects_sessions s sessions project sessionCount of
                   (project1, sessionCount1, True) \<Rightarrow> (ws, projects @ [project1])
                 | (project1, sessionCount1, False) \<Rightarrow>
                     (let (wt, project2) = ScanProjects_todos J fs s (de_Name entry) project1;
                          projects1 = (if length (prj_Sessions project2) > 0
                                       then projects @ [project2] else projects);
                          (ws', ps) = ScanProjects_loop J fs s projectsPath rest projects1 sessionCount1
                      in (ws @ wt @ ws', ps)))))"

definition ScanProjects ::
  "Decoder \<Rightarrow> FileSystem \<Rightarrow> Scanner \<Rightarrow> warning list \<times> (error + Project list)" where
  "ScanProjects J fs s =
     (let projectsPath = filepath_Join (basePath s) ''projects''
      in if Stat_IsNotExist fs projectsPath then ([], Inl ProjectsDirectoryNotFound)
         else
           (case ReadDir fs projectsPath of
              None \<Rightarrow> ([], Inl FailedToReadProjectsDirectory)
            | Some entries \<Rightarrow>
                (let (ws, projects) = ScanProjects_loop J fs s projectsPath entries [] 0
                 in (ws, Inr projects))))"

section \<open>Definitions that follow the specification\<close>

text \<open>
  The usage block of an assistant message with decoded usage; \<open>None\<close> for a message that
  is not of type assistant, whose content is not a decoded assistant message, or whose
  decoded content has no usage block.
\<close>

definition decoded_usage :: "Message \<Rightarrow> Usage option" where
  "decoded_usage msg =
     (if msg_Type msg = MessageTypeAssistant then
        (case msg_Content msg of
           AssistantMessage_content a \<Rightarrow> am_Usage a
         | _ \<Rightarrow> None)
      else None)"

text \<open>The token usage of the specification, in Go's \<^verbatim>\<open>int\<close> arithmetic.\<close>

definition spec_token_usage :: "Message list \<Rightarrow> go_int \<times> go_int" where
  "spec_token_usage msgs =
     (sum_list (map (\<lambda>u. InputTokens u + CacheReadInputTokens u) (List.map_filter decoded_usage msgs)),
      sum_list (map OutputTokens (List.map_filter decoded_usage msgs)))"

text \<open>The same sums over the unbounded integers, each counter read as a signed value.\<close>

definition int_token_usage :: "Message list \<Rightarrow> int \<times> int" where
  "int_token_usage msgs =
     (sum_list (map (\<lambda>u. sint (InputTokens u) + sint (CacheReadInputTokens u))
        (List.map_filter decoded_usage msgs)),
      sum_list (map (\<lambda>u. sint (OutputTokens u)) (List.map_filter decoded_usage msgs)))"

definition fits_int64 :: "int \<Rightarrow> bool" where
  "fits_int64 k = (- (2 ^ 63) \<le> k \<and> k < 2 ^ 63)"

text \<open>A message with the counter \<^verbatim>\<open>cache_creation_input_tokens\<close> of its usage block replaced.\<close>

definition with_cache_creation :: "go_int \<Rightarrow> Message \<Rightarrow> Message" where
  "with_cache_creation c msg =
     (case msg_Content msg of
        AssistantMessage_content a \<Rightarrow>
          msg\<lparr>msg_Content :=
            AssistantMessage_content
              (a\<lparr>am_Usage := map_option (\<lambda>u. u\<lparr>CacheCreationInputTokens := c\<rparr>) (am_Usage a)\<rparr>)\<rparr>
      | _ \<Rightarrow> msg)"

text \<open>
  The message that a scanned line adds to the session: none for an empty line and for a
  line that does not parse as a record; otherwise the record with its content decoded
  as far as \<^verbatim>\<open>ParseContent\<close> manages.
\<close>

definition line_record :: "Decoder \<Rightarrow> string \<Rightarrow> Message option" where
  "line_record J line =
     (if line = [] then None
      else map_option (\<lambda>d. snd (ParseContent J (d\<lparr>msg_Content := Nil_content\<rparr>)))
             (Unmarshal_Message J line))"

text \<open>The warnings that the line with (1-based) number \<open>n\<close> gives rise to.\<close>

definition line_warnings :: "Decoder \<Rightarrow> nat \<Rightarrow> string \<Rightarrow> warning list" where
  "line_warnings J n line =
     (if line = [] then []
      else
        (case Unmarshal_Message J line of
           None \<Rightarrow> [Warn_parse_line n]
         | Some d \<Rightarrow>
             (case fst (ParseContent J (d\<lparr>msg_Content := Nil_content\<rparr>)) of
                None \<Rightarrow> []
              | Some e \<Rightarrow> [Warn_parse_content (msg_UUID d)])))"

text \<open>The first session identifier that is not empty among the messages, empty if none.\<close>

definition first_session_id :: "Message list \<Rightarrow> string" where
  "first_session_id msgs =
     (case filter (\<lambda>m. msg_SessionID m \<noteq> []) msgs of [] \<Rightarrow> [] | m # _ \<Rightarrow> msg_SessionID m)"

text \<open>
  The identifier of the session once the loop of \<^verbatim>\<open>ReadSession\<close> has appended \<open>records\<close>
  to \<open>session\<close>.
\<close>

definition loop_id :: "Session \<Rightarrow> Message list \<Rightarrow> string" where
  "loop_id session records =
     (if ses_ID session \<noteq> [] then ses_ID session else first_session_id records)"

text \<open>
  What one entry of a project directory contributes to \<^verbatim>\<open>scanProjectSessions\<close>: its
  warnings, and its session if it is a session file that reads without failure.
\<close>

definition entry_warnings :: "Decoder \<Rightarrow> FileSystem \<Rightarrow> string \<Rightarrow> DirEntry \<Rightarrow> warning list" where
  "entry_warnings J fs projectPath entry =
     (if de_IsDir entry \<or> \<not> HasSuffix (de_Name entry) ''.jsonl'' then []
      else
        fst (ReadSession J fs (filepath_Join projectPath (de_Name entry))) @
        (case snd (ReadSession J fs (filepath_Join projectPath (de_Name entry))) of
           Inl err \<Rightarrow> [Warn_read_session_file (filepath_Join projectPath (de_Name entry)) err]
         | Inr session \<Rightarrow> []))"

definition entry_session ::
  "Decoder \<Rightarrow> FileSystem \<Rightarrow> string \<Rightarrow> string \<Rightarrow> DirEntry \<Rightarrow> Session option" where
  "entry_session J fs projectPath projectID entry =
     (if de_IsDir entry \<or> \<not> HasSuffix (de_Name entry) ''.jsonl'' then None
      else
        (case snd (ReadSession J fs (filepath_Join projectPath (de_Name entry))) of
           Inl err \<Rightarrow> None
         | Inr session \<Rightarrow> Some (session\<lparr>ses_ProjectID := projectID\<rparr>)))"

text \<open>
  The todo list that one entry of the todos directory contributes: the entry is a file
  with suffix \<^verbatim>\<open>.json\<close>, its name splits on \<^verbatim>\<open>-agent-\<close> into exactly two parts, and the file
  reads as an array of todos that is not empty.
\<close>

definition entry_todolist :: "Decoder \<Rightarrow> FileSystem \<Rightarrow> string \<Rightarrow> DirEntry \<Rightarrow> TodoList option" where
  "entry_todolist J fs todosPath entry =
     (if de_IsDir entry \<or> \<not> HasSuffix (de_Name entry) ''.json'' then None
      else
        (case Split (de_Name entry) ''-agent-'' of
           [sessionID, part1] \<Rightarrow>
             (case TodoReader_Read J fs (filepath_Join todosPath (de_Name entry)) of
                Inl err \<Rightarrow> None
              | Inr todos \<Rightarrow>
                  (if todos = [] then None
                   else Some \<lparr>tl_SessionID = sessionID, tl_AgentID = TrimSuffix part1 ''.json'',
                              tl_Todos = todos\<rparr>))
         | _ \<Rightarrow> None))"

text \<open>The warning that one entry of the todos directory gives rise to: a read that fails.\<close>

definition entry_todo_warnings :: "Decoder \<Rightarrow> FileSystem \<Rightarrow> string \<Rightarrow> DirEntry \<Rightarrow> warning list" where
  "entry_todo_warnings J fs todosPath entry =
     (if de_IsDir entry \<or> \<not> HasSuffix (de_Name entry) ''.json'' then []
      else
        (case Split (de_Name entry) ''-agent-'' of
           [sessionID, part1] \<Rightarrow>
             (case TodoReader_Read J fs (filepath_Join todosPath (de_Name entry)) of
                Inl err \<Rightarrow> [Warn_read_todo_file (filepath_Join todosPath (de_Name entry)) err]
              | Inr todos \<Rightarrow> [])
         | _ \<Rightarrow> []))"

text \<open>The todo lists of the archive: none when the todos directory is missing or unreadable.\<close>

definition archive_todos :: "Decoder \<Rightarrow> FileSystem \<Rightarrow> Scanner \<Rightarrow> TodoList list" where
  "archive_todos J fs s =
     (if Stat_IsNotExist fs (filepath_Join (basePath s) ''todos'') then []
      else
        (case ReadDir fs (filepath_Join (basePath s) ''todos'') of
           None \<Rightarrow> []
         | Some entries \<Rightarrow>
             List.map_filter (entry_todolist J fs (filepath_Join (basePath s) ''todos'')) entries))"

text \<open>
  The project that one entry of the projects directory yields when no session limit
  interferes: a directory that passes the path filter, whose sessions are those passing
  the date filter, with the todo lists of the archive if they are requested; none if no
  session is retained.
\<close>

definition entry_project :: "Decoder \<Rightarrow> FileSystem \<Rightarrow> Scanner \<Rightarrow> string \<Rightarrow> DirEntry \<Rightarrow> Project option" where
  "entry_project J fs s projectsPath entry =
     (if \<not> de_IsDir entry \<or> \<not> shouldProcessProject s (de_Name entry) then None
      else
        (case snd (scanProjectSessions J fs (filepath_Join projectsPath (de_Name entry)) (de_Name entry)) of
           Inl err \<Rightarrow> None
         | Inr sessions \<Rightarrow>
             (if filter (shouldIncludeSession (options s)) sessions = [] then None
              else Some
                ((foldl AddSession (NewProject (de_Name entry))
                    (filter (shouldIncludeSession (options s)) sessions))
                 \<lparr>prj_TodoLists := (if IncludeTodos (options s) then archive_todos J fs s else [])\<rparr>))))"

text \<open>
  The session limit applied to a list of projects: the projects are taken in order while
  the limit is not reached; the project whose session completes the limit is cut after
  that session, has no todo lists, and is the last one.
\<close>

fun cap_projects :: "nat \<Rightarrow> Project list \<Rightarrow> Project list" where
  "cap_projects k [] = []"
| "cap_projects k (p # ps) =
     (if length (prj_Sessions p) < k then p # cap_projects (k - length (prj_Sessions p)) ps
      else [p\<lparr>prj_Sessions := take k (prj_Sessions p), prj_TodoLists := []\<rparr>])"

definition total_sessions :: "Project list \<Rightarrow> nat" where
  "total_sessions ps = sum_list (map (\<lambda>p. length (prj_Sessions p)) ps)"

section \<open>Example data\<close>

text \<open>A record that carries a type and a timestamp only.\<close>

definition msg_at :: "string \<Rightarrow> time \<Rightarrow> Message" where
  "msg_at ty t =
     \<lparr>msg_UUID = [], msg_ParentUUID = None, msg_SessionID = [], msg_Type = ty,
      msg_UserType = [], msg_Timestamp = t, msg_RequestID = [], msg_Version = [], msg_CWD = [],
      msg_Message = [], msg_Content = Nil_content\<rparr>"

definition usage_of_counts :: "go_int \<Rightarrow> go_int \<Rightarrow> go_int \<Rightarrow> go_int \<Rightarrow> Usage" where
  "usage_of_counts i out cc cr =
     \<lparr>InputTokens = i, OutputTokens = out, CacheCreationInputTokens = cc,
      CacheReadInputTokens = cr, ServiceTier = []\<rparr>"

definition assistant_content :: "Usage option \<Rightarrow> content" where
  "assistant_content u =
     AssistantMessage_content
       \<lparr>am_ID = [], am_Type = ''message'', am_Role = ''assistant'', am_Model = [],
        am_Content = [], am_Usage = u\<rparr>"

text \<open>
  A small archive under \<^verbatim>\<open>/c\<close>, and one session file outside it. The lines of the
  session files are abbreviated; the decoder of the example knows exactly these lines and
  payloads, and rejects every other input, as \<^verbatim>\<open>json.Unmarshal\<close> rejects a line of spaces.
\<close>

definition ex_u0 :: Message where
  "ex_u0 = (msg_at ''user'' 10)\<lparr>msg_UUID := ''u0'', msg_UserType := ''external'',
     msg_Message := ''{role:user,content:Hello}''\<rparr>"

definition ex_a1 :: Message where
  "ex_a1 = (msg_at ''assistant'' 20)\<lparr>msg_UUID := ''a1'', msg_SessionID := ''s1'',
     msg_Message := ''{model:m,usage:{input_tokens:5,output_tokens:10}}''\<rparr>"

definition ex_a2 :: Message where
  "ex_a2 = (msg_at ''assistant'' 30)\<lparr>msg_UUID := ''a2'', msg_SessionID := ''s2'',
     msg_Message := ''[1]''\<rparr>"

definition ex_u3 :: Message where
  "ex_u3 = (msg_at ''user'' 40)\<lparr>msg_UUID := ''u3'', msg_SessionID := ''s3''\<rparr>"

text \<open>
  The zero value of \<^verbatim>\<open>AssistantMessage\<close>: what \<^verbatim>\<open>json.Unmarshal\<close> leaves in the struct,
  without an error, for the payloads \<^verbatim>\<open>null\<close> and \<^verbatim>\<open>{}\<close>, which have none of the fields of
  the assistant schema.
\<close>

definition zero_AssistantMessage :: AssistantMessage where
  "zero_AssistantMessage =
     \<lparr>am_ID = [], am_Type = [], am_Role = [], am_Model = [], am_Content = [], am_Usage = None\<rparr>"

definition ex_a4 :: Message where
  "ex_a4 = (msg_at ''assistant'' 50)\<lparr>msg_UUID := ''a4'', msg_SessionID := ''s4'',
     msg_Message := ''{}''\<rparr>"

definition ex_todo :: "string \<Rightarrow> string \<Rightarrow> Todo" where
  "ex_todo i st = \<lparr>todo_ID = i, todo_Content = ''task'', todo_Status = st, todo_Priority = ''high''\<rparr>"

definition ex_Decoder :: Decoder where
  "ex_Decoder =
     \<lparr>Unmarshal_Message =
        map_of [(''{uuid:u0,type:user,ts:10}'', ex_u0), (''{uuid:a1,type:assistant,ts:20}'', ex_a1),
                (''{uuid:a2,type:assistant,ts:30}'', ex_a2), (''{uuid:u3,type:user,ts:40}'', ex_u3),
                (''{uuid:a4,type:assistant,ts:50}'', ex_a4)],
      Unmarshal_envelope = map_of [(''{role:user,content:Hello}'', (''user'', ''Hello''))],
      Unmarshal_string = map_of [(''Hello'', ''Hello'')],
      Unmarshal_ToolResults = map_of [],
      Unmarshal_AssistantMessage =
        map_of [(''{model:m,usage:{input_tokens:5,output_tokens:10}}'',
                 \<lparr>am_ID = [], am_Type = [], am_Role = [], am_Model = ''m'', am_Content = [],
                  am_Usage = Some (usage_of_counts 5 10 0 0)\<rparr>),
                (''{}'', zero_AssistantMessage), (''null'', zero_AssistantMessage)],
      Unmarshal_Todos =
        map_of [(''[]'', []), (''[t1,t2]'', [ex_todo ''1'' ''completed'', ex_todo ''2'' ''pending''])]\<rparr>"

definition ex_dir :: "string \<Rightarrow> DirEntry" where
  "ex_dir n = \<lparr>de_Name = n, de_IsDir = True\<rparr>"

definition ex_file :: "string \<Rightarrow> DirEntry" where
  "ex_file n = \<lparr>de_Name = n, de_IsDir = False\<rparr>"

definition ex_fs :: FileSystem where
  "ex_fs =
     \<lparr>Stat_IsNotExist = (\<lambda>p. p \<noteq> ''/c/projects'' \<and> p \<noteq> ''/c/todos''),
      ReadDir =
        map_of [(''/c/projects'', [ex_dir ''-a'', ex_file ''README'', ex_dir ''-b'']),
                (''/c/projects/-a'', [ex_file ''s1.jsonl'', ex_file ''notes.txt'']),
                (''/c/projects/-b'', [ex_file ''bad.jsonl'', ex_file ''s2.jsonl'', ex_file ''s3.jsonl'']),
                (''/c/todos'',
                   [ex_file ''s1-agent-x.json'', ex_file ''s2-agent-y.json'', ex_file ''notes.json''])],
      Open_Scan =
        map_of [(''/c/projects/-a/s1.jsonl'',
                   ([''{uuid:u0,type:user,ts:10}'', [], ''not json'', ''{uuid:a1,type:assistant,ts:20}''],
                    False)),
                (''/c/projects/-b/bad.jsonl'', ([[], ''not json''], False)),
                (''/c/projects/-b/s2.jsonl'', ([''{uuid:a2,type:assistant,ts:30}''], False)),
                (''/c/projects/-b/s3.jsonl'', ([''{uuid:u3,type:user,ts:40}''], False)),
                (''/d/x.jsonl'', ([''{uuid:a4,type:assistant,ts:50}'', ''  ''], False))],
      ReadFile =
        map_of [(''/c/todos/s1-agent-x.json'', ''[t1,t2]''), (''/c/todos/s2-agent-y.json'', ''[]''),
                (''/c/todos/notes.json'', ''[t1,t2]'')]\<rparr>"

definition ex_options :: ScanOptions where
  "ex_options =
     \<lparr>StartDate = None, EndDate = None, ProjectPaths = [], IncludeTodos = True,
      IncludeShellSnapshots = False, MaxSessions = 0\<rparr>"

definition ex_Scanner :: "int \<Rightarrow> Scanner" where
  "ex_Scanner m = \<lparr>basePath = ''/c'', options = ex_options\<lparr>MaxSessions := m\<rparr>\<rparr>"

text \<open>The session of a successful read (the zero session stands for a failed one).\<close>

definition session_of :: "warning list \<times> (error + Session) \<Rightarrow> Session" where
  "session_of r = (case snd r of Inr s \<Rightarrow> s | Inl e \<Rightarrow> zero_Session)"

text \<open>The projects of a successful scan (none for a failed one).\<close>

definition projects_of :: "warning list \<times> (error + Project list) \<Rightarrow> Project list" where
  "projects_of r = (case snd r of Inr ps \<Rightarrow> ps | Inl e \<Rightarrow> [])"

text \<open>The session identifiers of the todo lists attached to a project.\<close>

definition todo_session_ids :: "Project \<Rightarrow> string list" where
  "todo_session_ids p = map tl_SessionID (prj_TodoLists p)"

text \<open>The sessions of a project directory that was listed (none for a failed listing).\<close>

definition sessions_of :: "warning list \<times> (error + Session list) \<Rightarrow> Session list" where
  "sessions_of r = (case snd r of Inr ss \<Rightarrow> ss | Inl e \<Rightarrow> [])"

section \<open>Session: appending messages\<close>

lemma AddMessage_Messages: "ses_Messages (AddMessage s m) = ses_Messages s @ [m]"
  by (simp add: AddMessage_def Let_def)

lemma AddMessage_ID: "ses_ID (AddMessage s m) = ses_ID s"
  by (simp add: AddMessage_def Let_def)

lemma AddMessage_EndTime: "ses_EndTime (AddMessage s m) = max (ses_EndTime s) (msg_Timestamp m)"
  by (simp add: AddMessage_def Let_def After_def max_def)

lemma AddMessage_StartTime:
  "ses_StartTime (AddMessage s m) =
     (if ses_StartTime s = 0 \<or> msg_Timestamp m < ses_StartTime s then msg_Timestamp m
      else ses_StartTime s)"
  by (simp add: AddMessage_def Let_def IsZero_def Before_def)

lemma foldl_AddMessage_Messages:
  "ses_Messages (foldl AddMessage s ms) = ses_Messages s @ ms"
  by (induction ms arbitrary: s) (simp_all add: AddMessage_Messages)

lemma foldl_AddMessage_EndTime:
  "ses_EndTime (foldl AddMessage s ms) = Max (insert (ses_EndTime s) (msg_Timestamp ` set ms))"
proof (induction ms rule: rev_induct)
  case Nil
  then show ?case by simp
next
  case (snoc m ms)
  have "Max (insert (ses_EndTime s) (msg_Timestamp ` set (ms @ [m])))
        = Max (insert (msg_Timestamp m) (insert (ses_EndTime s) (msg_Timestamp ` set ms)))"
    by (simp add: insert_commute)
  also have "\<dots> = max (msg_Timestamp m) (Max (insert (ses_EndTime s) (msg_Timestamp ` set ms)))"
    by (rule Max_insert) simp_all
  finally show ?case
    using snoc.IH by (simp add: AddMessage_EndTime max.commute)
qed

lemma foldl_AddMessage_StartTime:
  assumes "ses_StartTime s = 0" and "ms \<noteq> []" and "\<forall>m\<in>set ms. msg_Timestamp m \<noteq> 0"
  shows "ses_StartTime (foldl AddMessage s ms) = Min (msg_Timestamp ` set ms)"
  using assms(2,3)
proof (induction ms rule: rev_induct)
  case Nil
  then show ?case by simp
next
  case (snoc m ms)
  show ?case
  proof (cases "ms = []")
    case True
    then show ?thesis using assms(1) by (simp add: AddMessage_StartTime)
  next
    case False
    with snoc have IH: "ses_StartTime (foldl AddMessage s ms) = Min (msg_Timestamp ` set ms)"
      by simp
    have ne: "Min (msg_Timestamp ` set ms) \<noteq> 0"
    proof -
      have "Min (msg_Timestamp ` set ms) \<in> msg_Timestamp ` set ms"
        using False by (intro Min_in) simp_all
      then show ?thesis using snoc.prems by auto
    qed
    have "Min (msg_Timestamp ` set (ms @ [m])) = min (msg_Timestamp m) (Min (msg_Timestamp ` set ms))"
      using False by (simp add: Min_insert)
    then show ?thesis using IH ne
      by (simp add: AddMessage_StartTime min_def)
  qed
qed

lemma Sub_exact: "minDuration \<le> t - u \<Longrightarrow> t - u \<le> maxDuration \<Longrightarrow> Sub t u = t - u"
  by (simp add: Sub_def Let_def)

section \<open>Session: token usage\<close>

lemma GetTokenUsage_step_usage:
  "GetTokenUsage_step acc msg =
     (case decoded_usage msg of
        None \<Rightarrow> acc
      | Some u \<Rightarrow> (fst acc + (InputTokens u + CacheReadInputTokens u), snd acc + OutputTokens u))"
  by (simp add: GetTokenUsage_step_def decoded_usage_def split: content.splits option.splits)

lemma foldl_GetTokenUsage_step:
  "foldl GetTokenUsage_step acc msgs =
     (fst acc + fst (spec_token_usage msgs), snd acc + snd (spec_token_usage msgs))"
proof (induction msgs arbitrary: acc)
  case Nil
  then show ?case by (simp add: spec_token_usage_def List.map_filter_simps)
next
  case (Cons m msgs)
  show ?case
  proof (cases "decoded_usage m")
    case None
    then show ?thesis
      using Cons.IH [of acc]
      by (simp add: GetTokenUsage_step_usage spec_token_usage_def List.map_filter_simps)
  next
    case (Some u)
    then show ?thesis
      using Cons.IH [of "(fst acc + (InputTokens u + CacheReadInputTokens u), snd acc + OutputTokens u)"]
      by (simp add: GetTokenUsage_step_usage spec_token_usage_def List.map_filter_simps add.assoc)
  qed
qed

lemma GetTokenUsage_spec: "GetTokenUsage s = spec_token_usage (ses_Messages s)"
  by (simp add: GetTokenUsage_def foldl_GetTokenUsage_step)

lemma spec_token_usage_skip:
  "decoded_usage m = None \<Longrightarrow> spec_token_usage (xs @ m # ys) = spec_token_usage (xs @ ys)"
  by (simp add: spec_token_usage_def List.map_filter_def)

lemma decoded_usage_with_cache_creation:
  "decoded_usage (with_cache_creation c m) =
     map_option (\<lambda>u. u\<lparr>CacheCreationInputTokens := c\<rparr>) (decoded_usage m)"
  by (simp add: decoded_usage_def with_cache_creation_def split: content.splits)

lemma spec_token_usage_cache_creation:
  "spec_token_usage (map (with_cache_creation c) msgs) = spec_token_usage msgs"
proof -
  have "List.map_filter decoded_usage (map (with_cache_creation c) msgs) =
        map (\<lambda>u. u\<lparr>CacheCreationInputTokens := c\<rparr>) (List.map_filter decoded_usage msgs)"
    by (induction msgs)
      (auto simp: List.map_filter_simps decoded_usage_with_cache_creation split: option.splits)
  then show ?thesis
    by (simp add: spec_token_usage_def comp_def)
qed

lemma sint_sum_list_map:
  fixes f :: "'a \<Rightarrow> go_int"
  assumes "\<And>x. f x = word_of_int (g x)" and "fits_int64 (sum_list (map g xs))"
  shows "sint (sum_list (map f xs)) = sum_list (map g xs)"
proof -
  have "sum_list (map f xs) = word_of_int (sum_list (map g xs))"
    by (induction xs) (simp_all add: assms(1))
  then show ?thesis
    using assms(2) by (simp add: fits_int64_def sint_sbintrunc' signed_take_bit_int_eq_self)
qed

lemma spec_token_usage_int:
  "(fits_int64 (fst (int_token_usage msgs)) \<longrightarrow>
      sint (fst (spec_token_usage msgs)) = fst (int_token_usage msgs)) \<and>
   (fits_int64 (snd (int_token_usage msgs)) \<longrightarrow>
      sint (snd (spec_token_usage msgs)) = snd (int_token_usage msgs))"
  using sint_sum_list_map [of "\<lambda>u. InputTokens u + CacheReadInputTokens u"
      "\<lambda>u. sint (InputTokens u) + sint (CacheReadInputTokens u)" "List.map_filter decoded_usage msgs"]
    sint_sum_list_map [of OutputTokens "\<lambda>u. sint (OutputTokens u)" "List.map_filter decoded_usage msgs"]
  by (simp add: spec_token_usage_def int_token_usage_def)

section \<open>The JSONL reader\<close>

lemma ParseContent_only_Content:
  "(snd (ParseContent J m))\<lparr>msg_Content := c\<rparr> = m\<lparr>msg_Content := c\<rparr>"
  by (simp add: ParseContent_def split: option.splits prod.splits)

lemma ParseContent_SessionID: "msg_SessionID (snd (ParseContent J m)) = msg_SessionID m"
  by (simp add: ParseContent_def split: option.splits prod.splits)

lemma ParseContent_UUID: "msg_UUID (snd (ParseContent J m)) = msg_UUID m"
  by (simp add: ParseContent_def split: option.splits prod.splits)

lemma ParseContent_assistant_mismatch:
  "msg_Type m = MessageTypeAssistant \<Longrightarrow> Unmarshal_AssistantMessage J (msg_Message m) = None
     \<Longrightarrow> ParseContent J m = (Some UnmarshalError, m)"
  by (simp add: ParseContent_def MessageTypeAssistant_def MessageTypeUser_def)

lemma AddMessage_ID_update: "AddMessage (s\<lparr>ses_ID := x\<rparr>) m = (AddMessage s m)\<lparr>ses_ID := x\<rparr>"
  by (simp add: AddMessage_def Let_def)

lemma foldl_AddMessage_ID_update:
  "foldl AddMessage (s\<lparr>ses_ID := x\<rparr>) ms = (foldl AddMessage s ms)\<lparr>ses_ID := x\<rparr>"
  by (induction ms arbitrary: s) (simp_all add: AddMessage_ID_update)

lemma foldl_AddMessage_ID: "ses_ID (foldl AddMessage s ms) = ses_ID s"
  by (induction ms arbitrary: s) (simp_all add: AddMessage_ID)

lemma ReadSession_loop_eq:
  "ReadSession_loop J lines k session =
     (concat (map (\<lambda>(i, l). line_warnings J (Suc i) l) (enumerate k lines)),
      (foldl AddMessage session (List.map_filter (line_record J) lines))
        \<lparr>ses_ID := loop_id session (List.map_filter (line_record J) lines)\<rparr>)"
proof (induction lines arbitrary: k session)
  case Nil
  then show ?case
    by (simp add: List.map_filter_simps loop_id_def first_session_id_def)
next
  case (Cons line rest)
  show ?case
  proof (cases "line = []")
    case True
    then show ?thesis
      using Cons.IH [of "Suc k" session]
      by (simp add: List.map_filter_simps line_record_def line_warnings_def)
  next
    case False
    show ?thesis
    proof (cases "Unmarshal_Message J line")
      case None
      then show ?thesis
        using False Cons.IH [of "Suc k" session]
        by (simp add: List.map_filter_simps line_record_def line_warnings_def)
    next
      case (Some d)
      let ?fresh = "d\<lparr>msg_Content := Nil_content\<rparr>"
      let ?msg = "snd (ParseContent J ?fresh)"
      let ?ses = "if ses_ID session = [] \<and> msg_SessionID ?fresh \<noteq> []
                 then session\<lparr>ses_ID := msg_SessionID ?fresh\<rparr> else session"
      let ?rest = "List.map_filter (line_record J) rest"
      have rec: "line_record J line = Some ?msg"
        using False Some by (simp add: line_record_def)
      have step: "ReadSession_loop J (line # rest) k session =
          ((case fst (ParseContent J ?fresh) of None \<Rightarrow> [] | Some e \<Rightarrow> [Warn_parse_content (msg_UUID ?msg)])
             @ fst (ReadSession_loop J rest (Suc k) (AddMessage ?ses ?msg)),
           snd (ReadSession_loop J rest (Suc k) (AddMessage ?ses ?msg)))"
        using False Some by (simp add: Let_def case_prod_beta)
      have ws: "line_warnings J (Suc k) line =
          (case fst (ParseContent J ?fresh) of None \<Rightarrow> [] | Some e \<Rightarrow> [Warn_parse_content (msg_UUID ?msg)])"
        using False Some by (simp add: line_warnings_def ParseContent_UUID split: option.splits)
      have id: "loop_id (AddMessage ?ses ?msg) ?rest = loop_id session (?msg # ?rest)"
        by (simp add: loop_id_def AddMessage_ID first_session_id_def ParseContent_SessionID)
      have "foldl AddMessage (AddMessage ?ses ?msg) ?rest\<lparr>ses_ID := loop_id session (?msg # ?rest)\<rparr>
          = foldl AddMessage (AddMessage session ?msg) ?rest\<lparr>ses_ID := loop_id session (?msg # ?rest)\<rparr>"
        by (simp add: AddMessage_ID_update foldl_AddMessage_ID_update)
      then show ?thesis
        using Cons.IH [of "Suc k" "AddMessage ?ses ?msg"] step ws id rec
        by (simp add: List.map_filter_simps)
    qed
  qed
qed

lemma line_record_None_iff:
  "line_record J l = None \<longleftrightarrow> l = [] \<or> Unmarshal_Message J l = None"
  by (simp add: line_record_def)

lemma map_filter_Nil_iff: "List.map_filter f xs = [] \<longleftrightarrow> (\<forall>x\<in>set xs. f x = None)"
  by (induction xs) (auto simp: List.map_filter_simps split: option.splits)

lemma length_map_filter: "length (List.map_filter f xs) = length (filter (\<lambda>x. f x \<noteq> None) xs)"
  by (induction xs) (auto simp: List.map_filter_simps split: option.splits)

lemma map_filter_append: "List.map_filter f (xs @ ys) = List.map_filter f xs @ List.map_filter f ys"
  by (simp add: List.map_filter_def)

lemma ReadSession_eq:
  assumes "Open_Scan fs filePath = Some (lines, scan_err)"
  shows "ReadSession J fs filePath =
     (concat (map (\<lambda>(i, l). line_warnings J (Suc i) l) (enumerate 0 lines)),
      if scan_err then Inl ErrorReadingFile
      else if List.map_filter (line_record J) lines = [] then Inl NoMessagesFound
      else Inr ((foldl AddMessage zero_Session (List.map_filter (line_record J) lines))
                  \<lparr>ses_ID := first_session_id (List.map_filter (line_record J) lines)\<rparr>))"
  using assms
  by (simp add: ReadSession_def ReadSession_loop_eq foldl_AddMessage_Messages loop_id_def
      zero_Session_def)

lemma set_enumerate_nth: "set (enumerate 0 xs) = (\<lambda>i. (i, xs ! i)) ` {..<length xs}"
  by (auto simp: in_set_enumerate_eq image_iff)

lemma map_filter_filter:
  "(\<And>x. \<not> P x \<Longrightarrow> f x = None) \<Longrightarrow> List.map_filter f (filter P xs) = List.map_filter f xs"
  by (induction xs) (auto simp: List.map_filter_simps split: option.splits)

lemma parse_line_warning_iff:
  "Warn_parse_line n \<in> set (concat (map (\<lambda>(i, l). line_warnings J (Suc i) l) (enumerate 0 lines)))
     \<longleftrightarrow> 0 < n \<and> n \<le> length lines \<and> lines ! (n - 1) \<noteq> [] \<and>
         Unmarshal_Message J (lines ! (n - 1)) = None"
proof -
  have "Warn_parse_line n \<in> set (concat (map (\<lambda>(i, l). line_warnings J (Suc i) l) (enumerate 0 lines)))
      \<longleftrightarrow> (\<exists>i < length lines. Warn_parse_line n \<in> set (line_warnings J (Suc i) (lines ! i)))"
    by (simp add: set_enumerate_nth) blast
  also have "\<dots> \<longleftrightarrow> (\<exists>i < length lines. n = Suc i \<and> lines ! i \<noteq> [] \<and>
      Unmarshal_Message J (lines ! i) = None)"
    by (auto simp: line_warnings_def split: option.splits)
  also have "\<dots> \<longleftrightarrow> 0 < n \<and> n \<le> length lines \<and> lines ! (n - 1) \<noteq> [] \<and>
      Unmarshal_Message J (lines ! (n - 1)) = None"
    by (cases n) auto
  finally show ?thesis .
qed

lemma map_filter_line_record_nonblank:
  "List.map_filter (line_record J) (filter (\<lambda>l. l \<noteq> []) lines) = List.map_filter (line_record J) lines"
  by (rule map_filter_filter) (simp add: line_record_def)

section \<open>The scanner\<close>

lemma scanProjectSessions_loop_eq:
  "scanProjectSessions_loop J fs projectPath projectID entries sessions =
     (concat (map (entry_warnings J fs projectPath) entries),
      sessions @ List.map_filter (entry_session J fs projectPath projectID) entries)"
proof (induction entries arbitrary: sessions)
  case Nil
  then show ?case by (simp add: List.map_filter_simps)
next
  case (Cons entry rest)
  show ?case
  proof (cases "de_IsDir entry \<or> \<not> HasSuffix (de_Name entry) ''.jsonl''")
    case True
    then show ?thesis
      using Cons.IH [of sessions]
      by (simp add: List.map_filter_simps entry_warnings_def entry_session_def)
  next
    case False
    show ?thesis
    proof (cases "snd (ReadSession J fs (filepath_Join projectPath (de_Name entry)))")
      case (Inl err)
      then show ?thesis
        using False Cons.IH [of sessions]
        by (simp add: List.map_filter_simps entry_warnings_def entry_session_def Let_def
            case_prod_beta)
    next
      case (Inr session)
      then show ?thesis
        using False Cons.IH [of "sessions @ [session\<lparr>ses_ProjectID := projectID\<rparr>]"]
        by (simp add: List.map_filter_simps entry_warnings_def entry_session_def Let_def
            case_prod_beta)
    qed
  qed
qed

lemma scanProjectSessions_eq:
  "scanProjectSessions J fs projectPath projectID =
     (case ReadDir fs projectPath of
        None \<Rightarrow> ([], Inl ReadDirError)
      | Some entries \<Rightarrow>
          (concat (map (entry_warnings J fs projectPath) entries),
           Inr (List.map_filter (entry_session J fs projectPath projectID) entries)))"
  by (simp add: scanProjectSessions_def scanProjectSessions_loop_eq split: option.splits)

lemma scanProjectTodos_loop_eq:
  "snd (scanProjectTodos_loop J fs todosPath entries todoLists) =
     todoLists @ List.map_filter (entry_todolist J fs todosPath) entries"
proof (induction entries arbitrary: todoLists)
  case Nil
  then show ?case by (simp add: List.map_filter_simps)
next
  case (Cons entry rest)
  show ?case
  proof (cases "entry_todolist J fs todosPath entry")
    case None
    then have "snd (scanProjectTodos_loop J fs todosPath (entry # rest) todoLists) =
        snd (scanProjectTodos_loop J fs todosPath rest todoLists)"
      by (auto simp: entry_todolist_def Let_def case_prod_beta
          split: if_splits list.splits sum.splits)
    then show ?thesis
      using None Cons.IH [of todoLists] by (simp add: List.map_filter_simps)
  next
    case (Some tl)
    then have "snd (scanProjectTodos_loop J fs todosPath (entry # rest) todoLists) =
        snd (scanProjectTodos_loop J fs todosPath rest (todoLists @ [tl]))"
      by (auto simp: entry_todolist_def Let_def case_prod_beta
          split: if_splits list.splits sum.splits)
    then show ?thesis
      using Some Cons.IH [of "todoLists @ [tl]"] by (simp add: List.map_filter_simps)
  qed
qed

lemma scanProjectTodos_result:
  "snd (scanProjectTodos J fs s projectID) =
     (if Stat_IsNotExist fs (filepath_Join (basePath s) ''todos'') then Inr []
      else
        (case ReadDir fs (filepath_Join (basePath s) ''todos'') of
           None \<Rightarrow> Inl ReadDirError
         | Some entries \<Rightarrow>
             Inr (List.map_filter (entry_todolist J fs (filepath_Join (basePath s) ''todos'')) entries)))"
  using scanProjectTodos_loop_eq [of J fs "filepath_Join (basePath s) ''todos''" _ "[]"]
  by (simp add: scanProjectTodos_def Let_def case_prod_beta split: option.splits)

lemma foldl_AddTodoList:
  "foldl AddTodoList p tls = p\<lparr>prj_TodoLists := prj_TodoLists p @ tls\<rparr>"
  by (induction tls arbitrary: p) (simp_all add: AddTodoList_def)

lemma foldl_AddSession:
  "foldl AddSession p ss =
     p\<lparr>prj_Sessions := prj_Sessions p @ map (\<lambda>x. x\<lparr>ses_ProjectID := prj_ID p\<rparr>) ss\<rparr>"
  by (induction ss arbitrary: p) (simp_all add: AddSession_def)

lemma ScanProjects_todos_result:
  "snd (ScanProjects_todos J fs s name p) =
     p\<lparr>prj_TodoLists :=
        prj_TodoLists p @ (if IncludeTodos (options s) then archive_todos J fs s else [])\<rparr>"
proof (cases "IncludeTodos (options s)")
  case False
  then show ?thesis by (simp add: ScanProjects_todos_def)
next
  case True
  obtain ws r where sp: "scanProjectTodos J fs s (prj_ID p) = (ws, r)"
    by (cases "scanProjectTodos J fs s (prj_ID p)")
  then have r: "r = snd (scanProjectTodos J fs s (prj_ID p))" by simp
  show ?thesis
  proof (cases r)
    case (Inl err)
    with r have "archive_todos J fs s = []"
      by (auto simp: scanProjectTodos_result archive_todos_def split: if_splits option.splits)
    then show ?thesis
      using True sp Inl by (simp add: ScanProjects_todos_def)
  next
    case (Inr todos)
    with r have "archive_todos J fs s = todos"
      by (auto simp: scanProjectTodos_result archive_todos_def split: if_splits option.splits)
    then show ?thesis
      using True sp Inr by (simp add: ScanProjects_todos_def foldl_AddTodoList)
  qed
qed

lemma ScanProjects_sessions_eq:
  assumes "0 < MaxSessions (options s) \<longrightarrow> n < MaxSessions (options s)"
  shows "ScanProjects_sessions s sessions project n =
     (if 0 < MaxSessions (options s) \<and>
         MaxSessions (options s) \<le> n + int (length (filter (shouldIncludeSession (options s)) sessions))
      then (foldl AddSession project
              (take (nat (MaxSessions (options s) - n)) (filter (shouldIncludeSession (options s)) sessions)),
            MaxSessions (options s), True)
      else (foldl AddSession project (filter (shouldIncludeSession (options s)) sessions),
            n + int (length (filter (shouldIncludeSession (options s)) sessions)), False))"
  using assms
proof (induction sessions arbitrary: project n)
  case Nil
  then show ?case by auto
next
  case (Cons session rest)
  show ?case
  proof (cases "shouldIncludeSession (options s) session")
    case False
    then show ?thesis using Cons.IH [of n project] Cons.prems by simp
  next
    case True
    show ?thesis
    proof (cases "0 < MaxSessions (options s) \<and> MaxSessions (options s) \<le> n + 1")
      case c: True
      with Cons.prems have "MaxSessions (options s) = n + 1" by linarith
      then show ?thesis using True c by (simp add: Let_def)
    next
      case c: False
      then have pre: "0 < MaxSessions (options s) \<longrightarrow> n + 1 < MaxSessions (options s)"
        by linarith
      have tk: "take (nat (MaxSessions (options s) - n)) (session # xs) =
          session # take (nat (MaxSessions (options s) - (n + 1))) xs"
        if "0 < MaxSessions (options s)" for xs
      proof -
        from that pre have "nat (MaxSessions (options s) - n) =
            Suc (nat (MaxSessions (options s) - (n + 1)))"
          by linarith
        then show ?thesis by simp
      qed
      show ?thesis
        using True c Cons.IH [OF pre, of "AddSession project session"] tk
        by (auto simp: Let_def add.assoc)
    qed
  qed
qed

lemma ScanProjects_loop_step_skip:
  "\<not> de_IsDir entry \<or> \<not> shouldProcessProject s (de_Name entry) \<Longrightarrow>
   ScanProjects_loop J fs s pp (entry # rest) ps n = ScanProjects_loop J fs s pp rest ps n"
  by auto

lemma ScanProjects_loop_step_error:
  "de_IsDir entry \<Longrightarrow> shouldProcessProject s (de_Name entry) \<Longrightarrow>
   snd (scanProjectSessions J fs (filepath_Join pp (de_Name entry)) (de_Name entry)) = Inl err \<Longrightarrow>
   snd (ScanProjects_loop J fs s pp (entry # rest) ps n) = snd (ScanProjects_loop J fs s pp rest ps n)"
  by (simp add: Let_def case_prod_beta NewProject_def)

lemma ScanProjects_loop_step_capped:
  "de_IsDir entry \<Longrightarrow> shouldProcessProject s (de_Name entry) \<Longrightarrow>
   scanProjectSessions J fs (filepath_Join pp (de_Name entry)) (de_Name entry) = (ws, Inr sessions) \<Longrightarrow>
   ScanProjects_sessions s sessions (NewProject (de_Name entry)) n = (p1, n1, True) \<Longrightarrow>
   ScanProjects_loop J fs s pp (entry # rest) ps n = (ws, ps @ [p1])"
  by (simp add: Let_def NewProject_def)

lemma ScanProjects_loop_step_continue:
  "de_IsDir entry \<Longrightarrow> shouldProcessProject s (de_Name entry) \<Longrightarrow>
   scanProjectSessions J fs (filepath_Join pp (de_Name entry)) (de_Name entry) = (ws, Inr sessions) \<Longrightarrow>
   ScanProjects_sessions s sessions (NewProject (de_Name entry)) n = (p1, n1, False) \<Longrightarrow>
   ScanProjects_loop J fs s pp (entry # rest) ps n =
     (ws @ fst (ScanProjects_todos J fs s (de_Name entry) p1) @
        fst (ScanProjects_loop J fs s pp rest
          (if length (prj_Sessions (snd (ScanProjects_todos J fs s (de_Name entry) p1))) > 0
           then ps @ [snd (ScanProjects_todos J fs s (de_Name entry) p1)] else ps) n1),
      snd (ScanProjects_loop J fs s pp rest
          (if length (prj_Sessions (snd (ScanProjects_todos J fs s (de_Name entry) p1))) > 0
           then ps @ [snd (ScanProjects_todos J fs s (de_Name entry) p1)] else ps) n1))"
  by (simp add: Let_def NewProject_def case_prod_beta)

lemma ScanProjects_loop_result:
  assumes "0 < MaxSessions (options s) \<longrightarrow> n < MaxSessions (options s)"
  shows "snd (ScanProjects_loop J fs s pp entries ps n) =
     ps @ (if 0 < MaxSessions (options s)
           then cap_projects (nat (MaxSessions (options s) - n))
                  (List.map_filter (entry_project J fs s pp) entries)
           else List.map_filter (entry_project J fs s pp) entries)"
  using assms
proof (induction entries arbitrary: ps n)
  case Nil
  then show ?case by (simp add: List.map_filter_simps)
next
  case (Cons entry rest)
  let ?m = "MaxSessions (options s)"
  let ?name = "de_Name entry"
  show ?case
  proof (cases "\<not> de_IsDir entry \<or> \<not> shouldProcessProject s ?name")
    case True
    then have "entry_project J fs s pp entry = None"
      by (simp add: entry_project_def)
    then show ?thesis
      using Cons.IH [OF Cons.prems, of ps] ScanProjects_loop_step_skip [OF True]
      by (simp add: List.map_filter_simps del: ScanProjects_loop.simps)
  next
    case False
    then have dir: "de_IsDir entry" and proc: "shouldProcessProject s ?name" by simp_all
    obtain ws r where sps: "scanProjectSessions J fs (filepath_Join pp ?name) ?name = (ws, r)"
      by (cases "scanProjectSessions J fs (filepath_Join pp ?name) ?name")
    show ?thesis
    proof (cases r)
      case (Inl err)
      with sps have e: "snd (scanProjectSessions J fs (filepath_Join pp ?name) ?name) = Inl err"
        by simp
      then have "entry_project J fs s pp entry = None"
        by (simp add: entry_project_def)
      then show ?thesis
        using Cons.IH [OF Cons.prems, of ps] ScanProjects_loop_step_error [OF dir proc e]
        by (simp add: List.map_filter_simps del: ScanProjects_loop.simps)
    next
      case (Inr sessions)
      let ?kept = "filter (shouldIncludeSession (options s)) sessions"
      let ?T = "if IncludeTodos (options s) then archive_todos J fs s else []"
      let ?P = "(foldl AddSession (NewProject ?name) ?kept)\<lparr>prj_TodoLists := ?T\<rparr>"
      from sps Inr have sps': "scanProjectSessions J fs (filepath_Join pp ?name) ?name = (ws, Inr sessions)"
        by simp
      have ep: "entry_project J fs s pp entry = (if ?kept = [] then None else Some ?P)"
        using dir proc sps' by (simp add: entry_project_def)
      have lenP: "length (prj_Sessions ?P) = length ?kept"
        by (simp add: foldl_AddSession NewProject_def)
      note se = ScanProjects_sessions_eq [OF Cons.prems, of sessions "NewProject ?name"]
      show ?thesis
      proof (cases "0 < ?m \<and> ?m \<le> n + int (length ?kept)")
        case cap: True
        let ?k = "nat (?m - n)"
        from cap Cons.prems have k: "0 < ?k" "?k \<le> length ?kept" by linarith+
        then have ne: "?kept \<noteq> []" by auto
        from se cap have "ScanProjects_sessions s sessions (NewProject ?name) n =
            (foldl AddSession (NewProject ?name) (take ?k ?kept), ?m, True)"
          by simp
        from ScanProjects_loop_step_capped [OF dir proc sps' this]
        have lhs: "snd (ScanProjects_loop J fs s pp (entry # rest) ps n) =
            ps @ [foldl AddSession (NewProject ?name) (take ?k ?kept)]"
          by simp
        have "?P\<lparr>prj_Sessions := take ?k (prj_Sessions ?P), prj_TodoLists := []\<rparr> =
            foldl AddSession (NewProject ?name) (take ?k ?kept)"
          by (simp add: foldl_AddSession NewProject_def take_map)
        then have "cap_projects ?k (?P # List.map_filter (entry_project J fs s pp) rest) =
            [foldl AddSession (NewProject ?name) (take ?k ?kept)]"
          using k lenP by simp
        then show ?thesis
          using lhs ep ne cap by (simp add: List.map_filter_simps del: ScanProjects_loop.simps)
      next
        case nocap: False
        let ?n1 = "n + int (length ?kept)"
        let ?p1 = "foldl AddSession (NewProject ?name) ?kept"
        from nocap have pre: "0 < ?m \<longrightarrow> ?n1 < ?m" by linarith
        from se nocap have "ScanProjects_sessions s sessions (NewProject ?name) n = (?p1, ?n1, False)"
          by simp
        note step = ScanProjects_loop_step_continue [OF dir proc sps' this]
        have p2: "snd (ScanProjects_todos J fs s ?name ?p1) = ?P"
          by (simp add: ScanProjects_todos_result foldl_AddSession NewProject_def)
        have ne: "(0 < length (prj_Sessions ?P)) = (?kept \<noteq> [])"
          using lenP by simp
        have step': "snd (ScanProjects_loop J fs s pp (entry # rest) ps n) =
            snd (ScanProjects_loop J fs s pp rest (if ?kept \<noteq> [] then ps @ [?P] else ps) ?n1)"
          unfolding step p2 ne by simp
        show ?thesis
        proof (cases "?kept = []")
          case True
          then show ?thesis
            using step' ep Cons.IH [OF pre, of ps] Cons.prems
            by (simp add: List.map_filter_simps del: ScanProjects_loop.simps)
        next
          case False
          have "0 < ?m \<Longrightarrow> nat (?m - n) - length ?kept = nat (?m - ?n1)"
            by linarith
          moreover have "0 < ?m \<Longrightarrow> length ?kept < nat (?m - n)"
            using pre by linarith
          ultimately show ?thesis
            using False step' lenP ep Cons.IH [OF pre, of "ps @ [?P]"]
            by (simp add: List.map_filter_simps del: ScanProjects_loop.simps)
        qed
      qed
    qed
  qed
qed

lemma shouldIncludeSession_MaxSessions:
  "shouldIncludeSession (opts\<lparr>MaxSessions := m\<rparr>) = shouldIncludeSession opts"
  by (rule ext) (simp add: shouldIncludeSession_def)

lemma shouldProcessProject_MaxSessions:
  "shouldProcessProject (s\<lparr>options := (options s)\<lparr>MaxSessions := m\<rparr>\<rparr>) name =
     shouldProcessProject s name"
  by (simp add: shouldProcessProject_def)

lemma archive_todos_MaxSessions:
  "archive_todos J fs (s\<lparr>options := (options s)\<lparr>MaxSessions := m\<rparr>\<rparr>) = archive_todos J fs s"
  by (simp add: archive_todos_def split: option.splits)

lemma entry_project_MaxSessions:
  "entry_project J fs (s\<lparr>options := (options s)\<lparr>MaxSessions := m\<rparr>\<rparr>) pp = entry_project J fs s pp"
  by (rule ext)
    (simp add: entry_project_def shouldProcessProject_MaxSessions archive_todos_MaxSessions
      shouldIncludeSession_MaxSessions split: sum.splits)

lemma total_sessions_Cons:
  "total_sessions (p # ps) = length (prj_Sessions p) + total_sessions ps"
  by (simp add: total_sessions_def)

lemma total_sessions_cap_projects:
  "0 < k \<Longrightarrow> total_sessions (cap_projects k ps) = min k (total_sessions ps)"
proof (induction ps arbitrary: k)
  case Nil
  then show ?case by (simp add: total_sessions_def)
next
  case (Cons p ps)
  show ?case
  proof (cases "length (prj_Sessions p) < k")
    case True
    then show ?thesis
      using Cons.IH [of "k - length (prj_Sessions p)"]
      by (simp add: total_sessions_Cons)
  next
    case False
    then show ?thesis
      by (simp add: total_sessions_Cons total_sessions_def)
  qed
qed

lemma cap_projects_not_reached:
  "total_sessions ps < k \<Longrightarrow> cap_projects k ps = ps"
proof (induction ps arbitrary: k)
  case Nil
  then show ?case by simp
next
  case (Cons p ps)
  then show ?case by (simp add: total_sessions_Cons)
qed

lemma cap_projects_reached:
  "0 < k \<Longrightarrow> k \<le> total_sessions ps \<Longrightarrow>
   cap_projects k ps \<noteq> [] \<and> prj_TodoLists (last (cap_projects k ps)) = [] \<and>
   prefix (butlast (cap_projects k ps)) ps"
proof (induction ps arbitrary: k)
  case Nil
  then show ?case by (simp add: total_sessions_def)
next
  case (Cons p ps)
  show ?case
  proof (cases "length (prj_Sessions p) < k")
    case True
    with Cons.prems have "0 < k - length (prj_Sessions p)"
      "k - length (prj_Sessions p) \<le> total_sessions ps"
      by (simp_all add: total_sessions_Cons)
    from Cons.IH [OF this] True show ?thesis by simp
  next
    case False
    then show ?thesis by simp
  qed
qed

lemma ScanProjects_result:
  "snd (ScanProjects J fs s) =
     (if Stat_IsNotExist fs (filepath_Join (basePath s) ''projects'') then Inl ProjectsDirectoryNotFound
      else
        (case ReadDir fs (filepath_Join (basePath s) ''projects'') of
           None \<Rightarrow> Inl FailedToReadProjectsDirectory
         | Some entries \<Rightarrow>
             Inr (if 0 < MaxSessions (options s)
                  then cap_projects (nat (MaxSessions (options s)))
                         (List.map_filter
                            (entry_project J fs s (filepath_Join (basePath s) ''projects'')) entries)
                  else List.map_filter
                         (entry_project J fs s (filepath_Join (basePath s) ''projects'')) entries)))"
proof -
  have "snd (ScanProjects_loop J fs s pp entries [] 0) =
      (if 0 < MaxSessions (options s)
       then cap_projects (nat (MaxSessions (options s))) (List.map_filter (entry_project J fs s pp) entries)
       else List.map_filter (entry_project J fs s pp) entries)" for pp entries
    using ScanProjects_loop_result [of s 0 J fs pp entries "[]"] by simp
  then show ?thesis
    by (simp add: ScanProjects_def Let_def case_prod_beta split: option.splits)
qed

lemma ScanProjects_unlimited:
  "snd (ScanProjects J fs (s\<lparr>options := (options s)\<lparr>MaxSessions := 0\<rparr>\<rparr>)) =
     (if Stat_IsNotExist fs (filepath_Join (basePath s) ''projects'') then Inl ProjectsDirectoryNotFound
      else
        (case ReadDir fs (filepath_Join (basePath s) ''projects'') of
           None \<Rightarrow> Inl FailedToReadProjectsDirectory
         | Some entries \<Rightarrow>
             Inr (List.map_filter
                    (entry_project J fs s (filepath_Join (basePath s) ''projects'')) entries)))"
  by (simp add: ScanProjects_result entry_project_MaxSessions split: option.splits)

lemma ScanProjects_capped:
  assumes "0 < MaxSessions (options s)" and "snd (ScanProjects J fs s) = Inr ps"
  shows "\<exists>ps0. snd (ScanProjects J fs (s\<lparr>options := (options s)\<lparr>MaxSessions := 0\<rparr>\<rparr>)) = Inr ps0 \<and>
     ps = cap_projects (nat (MaxSessions (options s))) ps0"
  using assms
  unfolding ScanProjects_unlimited
  by (auto simp: ScanProjects_result split: if_splits option.splits)

lemma map_filter_Cons_None: "f x = None \<Longrightarrow> List.map_filter f (x # xs) = List.map_filter f xs"
  by (simp add: List.map_filter_simps)

lemma map_filter_Cons_Some: "f x = Some y \<Longrightarrow> List.map_filter f (x # xs) = y # List.map_filter f xs"
  by (simp add: List.map_filter_simps)

lemma ScanProjects_loop_stops:
  assumes "0 < MaxSessions (options s)" and "n < MaxSessions (options s)"
    and "nat (MaxSessions (options s) - n) \<le> total_sessions (List.map_filter (entry_project J fs s pp) es1)"
  shows "ScanProjects_loop J fs s pp (es1 @ es2) ps n = ScanProjects_loop J fs s pp es1 ps n"
  using assms(2,3)
proof (induction es1 arbitrary: ps n)
  case Nil
  then show ?case using assms(1) by (simp add: total_sessions_def List.map_filter_simps)
next
  case (Cons entry rest)
  let ?m = "MaxSessions (options s)"
  let ?name = "de_Name entry"
  show ?case
  proof (cases "\<not> de_IsDir entry \<or> \<not> shouldProcessProject s ?name")
    case True
    then have "entry_project J fs s pp entry = None"
      by (simp add: entry_project_def)
    with Cons.prems have "nat (?m - n) \<le> total_sessions (List.map_filter (entry_project J fs s pp) rest)"
      by (simp add: map_filter_Cons_None)
    from Cons.IH [OF Cons.prems(1) this] show ?thesis
      using ScanProjects_loop_step_skip [OF True] by (simp del: ScanProjects_loop.simps)
  next
    case False
    then have dir: "de_IsDir entry" and proc: "shouldProcessProject s ?name" by simp_all
    obtain ws r where sps: "scanProjectSessions J fs (filepath_Join pp ?name) ?name = (ws, r)"
      by (cases "scanProjectSessions J fs (filepath_Join pp ?name) ?name")
    show ?thesis
    proof (cases r)
      case (Inl err)
      then have "entry_project J fs s pp entry = None"
        using sps by (simp add: entry_project_def)
      with Cons.prems have "nat (?m - n) \<le> total_sessions (List.map_filter (entry_project J fs s pp) rest)"
        by (simp add: map_filter_Cons_None)
      from Cons.IH [OF Cons.prems(1) this] show ?thesis
        using dir proc sps Inl by (simp add: Let_def NewProject_def)
    next
      case (Inr sessions)
      let ?kept = "filter (shouldIncludeSession (options s)) sessions"
      let ?T = "if IncludeTodos (options s) then archive_todos J fs s else []"
      let ?P = "(foldl AddSession (NewProject ?name) ?kept)\<lparr>prj_TodoLists := ?T\<rparr>"
      from sps Inr have sps': "scanProjectSessions J fs (filepath_Join pp ?name) ?name = (ws, Inr sessions)"
        by simp
      have ep: "entry_project J fs s pp entry = (if ?kept = [] then None else Some ?P)"
        using dir proc sps' by (simp add: entry_project_def)
      have lenP: "length (prj_Sessions ?P) = length ?kept"
        by (simp add: foldl_AddSession NewProject_def)
      have pre0: "0 < ?m \<longrightarrow> n < ?m" using Cons.prems(1) by simp
      note se = ScanProjects_sessions_eq [OF pre0, of sessions "NewProject ?name"]
      show ?thesis
      proof (cases "?m \<le> n + int (length ?kept)")
        case True
        with se assms(1) have "ScanProjects_sessions s sessions (NewProject ?name) n =
            (foldl AddSession (NewProject ?name) (take (nat (?m - n)) ?kept), ?m, True)"
          by simp
        from ScanProjects_loop_step_capped [OF dir proc sps' this]
        show ?thesis by (simp del: ScanProjects_loop.simps)
      next
        case False
        let ?n1 = "n + int (length ?kept)"
        let ?p1 = "foldl AddSession (NewProject ?name) ?kept"
        from False have n1: "?n1 < ?m" by simp
        from se False have "ScanProjects_sessions s sessions (NewProject ?name) n = (?p1, ?n1, False)"
          by simp
        note step = ScanProjects_loop_step_continue [OF dir proc sps' this]
        have "total_sessions (List.map_filter (entry_project J fs s pp) (entry # rest)) =
            length ?kept + total_sessions (List.map_filter (entry_project J fs s pp) rest)"
          using ep lenP
          by (cases "?kept = []")
            (simp_all add: map_filter_Cons_None map_filter_Cons_Some total_sessions_Cons)
        with Cons.prems(2) n1
        have "nat (?m - ?n1) \<le> total_sessions (List.map_filter (entry_project J fs s pp) rest)"
          by linarith
        note IH = Cons.IH [OF n1 this]
        show ?thesis
          unfolding append_Cons step IH ..
      qed
    qed
  qed
qed

lemma set_map_filter: "set (List.map_filter f xs) = {y. \<exists>x\<in>set xs. f x = Some y}"
  by (induction xs) (auto simp: List.map_filter_simps split: option.splits)

lemma entry_project_TodoLists:
  "entry_project J fs s pp e = Some p \<Longrightarrow>
   prj_TodoLists p = (if IncludeTodos (options s) then archive_todos J fs s else [])"
  by (auto simp: entry_project_def split: if_splits sum.splits)

lemma ScanProjects_unlimited_TodoLists:
  assumes "snd (ScanProjects J fs (s\<lparr>options := (options s)\<lparr>MaxSessions := 0\<rparr>\<rparr>)) = Inr ps0"
    and "p \<in> set ps0"
  shows "prj_TodoLists p = (if IncludeTodos (options s) then archive_todos J fs s else [])"
proof -
  from assms(1) obtain entries where
    "ps0 = List.map_filter (entry_project J fs s (filepath_Join (basePath s) ''projects'')) entries"
    unfolding ScanProjects_unlimited by (auto split: if_splits option.splits)
  with assms(2) obtain e where
    "entry_project J fs s (filepath_Join (basePath s) ''projects'') e = Some p"
    by (auto simp: set_map_filter)
  then show ?thesis by (rule entry_project_TodoLists)
qed

lemma ScanProjects_completed_projects:
  assumes "snd (ScanProjects J fs s) = Inr ps"
  shows "\<exists>ps0. snd (ScanProjects J fs (s\<lparr>options := (options s)\<lparr>MaxSessions := 0\<rparr>\<rparr>)) = Inr ps0 \<and>
     prefix (if 0 < MaxSessions (options s) \<and> total_sessions ps = nat (MaxSessions (options s))
             then butlast ps else ps) ps0 \<and>
     (0 < MaxSessions (options s) \<and> total_sessions ps = nat (MaxSessions (options s)) \<longrightarrow>
        ps \<noteq> [] \<and> prj_TodoLists (last ps) = [])"
proof (cases "0 < MaxSessions (options s)")
  case False
  then have "snd (ScanProjects J fs (s\<lparr>options := (options s)\<lparr>MaxSessions := 0\<rparr>\<rparr>)) = Inr ps"
    using assms unfolding ScanProjects_unlimited
    by (auto simp: ScanProjects_result split: if_splits option.splits)
  with False show ?thesis by simp
next
  case True
  let ?k = "nat (MaxSessions (options s))"
  from ScanProjects_capped [OF True assms] obtain ps0 where
    ps0: "snd (ScanProjects J fs (s\<lparr>options := (options s)\<lparr>MaxSessions := 0\<rparr>\<rparr>)) = Inr ps0"
    and ps: "ps = cap_projects ?k ps0"
    by blast
  from True have k: "0 < ?k" by simp
  have tot: "total_sessions ps = min ?k (total_sessions ps0)"
    using ps total_sessions_cap_projects [OF k] by simp
  show ?thesis
  proof (cases "?k \<le> total_sessions ps0")
    case reached: True
    with tot have "total_sessions ps = ?k" by simp
    then show ?thesis
      using True ps0 ps cap_projects_reached [OF k reached] by simp
  next
    case False
    then have "cap_projects ?k ps0 = ps0"
      by (simp add: cap_projects_not_reached)
    moreover from False tot have "total_sessions ps \<noteq> ?k" by simp
    ultimately show ?thesis
      using ps0 ps by simp
  qed
qed

lemma scanProjectTodos_loop_warnings:
  "fst (scanProjectTodos_loop J fs todosPath entries todoLists) =
     concat (map (entry_todo_warnings J fs todosPath) entries)"
proof (induction entries arbitrary: todoLists)
  case Nil
  then show ?case by simp
next
  case (Cons entry rest)
  show ?case
  proof (cases "entry_todo_warnings J fs todosPath entry")
    case Nil
    then have "\<exists>tls. fst (scanProjectTodos_loop J fs todosPath (entry # rest) todoLists) =
        fst (scanProjectTodos_loop J fs todosPath rest tls)"
      by (auto simp: entry_todo_warnings_def Let_def case_prod_beta
          split: if_splits list.splits sum.splits)
    then show ?thesis
      using Nil Cons.IH by auto
  next
    case (Cons w ws)
    then have "fst (scanProjectTodos_loop J fs todosPath (entry # rest) todoLists) =
        w # ws @ fst (scanProjectTodos_loop J fs todosPath rest todoLists)"
      by (auto simp: entry_todo_warnings_def Let_def case_prod_beta
          split: if_splits list.splits sum.splits)
    then show ?thesis
      using Cons Cons.IH [of todoLists] by simp
  qed
qed

lemma scanProjectTodos_eq:
  "scanProjectTodos J fs s projectID =
     (if Stat_IsNotExist fs (filepath_Join (basePath s) ''todos'') then ([], Inr [])
      else
        (case ReadDir fs (filepath_Join (basePath s) ''todos'') of
           None \<Rightarrow> ([], Inl ReadDirError)
         | Some entries \<Rightarrow>
             (concat (map (entry_todo_warnings J fs (filepath_Join (basePath s) ''todos'')) entries),
              Inr (List.map_filter (entry_todolist J fs (filepath_Join (basePath s) ''todos'')) entries))))"
  using scanProjectTodos_loop_eq [of J fs "filepath_Join (basePath s) ''todos''" _ "[]"]
    scanProjectTodos_loop_warnings [of J fs "filepath_Join (basePath s) ''todos''" _ "[]"]
  by (simp add: scanProjectTodos_def Let_def case_prod_beta split: option.splits)

lemma ScanProjects_sessions_TodoLists:
  "ScanProjects_sessions s sessions project n = (p1, n1, b) \<Longrightarrow> prj_TodoLists p1 = prj_TodoLists project"
  by (induction s sessions project n rule: ScanProjects_sessions.induct)
    (auto simp: Let_def AddSession_def split: if_splits)

lemma ScanProjects_sessions_capped_nonempty:
  "ScanProjects_sessions s sessions project n = (p1, n1, True) \<Longrightarrow>
   prj_Sessions p1 \<noteq> [] \<and> 0 < MaxSessions (options s) \<and> MaxSessions (options s) \<le> n1"
  by (induction s sessions project n rule: ScanProjects_sessions.induct)
    (auto simp: Let_def AddSession_def split: if_splits)

lemma Split_from_not_Nil: "Split_from sep cur s \<noteq> []"
  by (induction sep cur s rule: Split_from.induct) auto

lemma Join_strings_Cons: "xs \<noteq> [] \<Longrightarrow> Join_strings (x # xs) sep = x @ sep @ Join_strings xs sep"
  by (cases xs) simp_all

lemma Join_Split_from: "Join_strings (Split_from sep cur s) sep = cur @ s"
proof (induction sep cur s rule: Split_from.induct)
  case (1 sep cur)
  then show ?case by simp
next
  case (2 sep cur c cs)
  show ?case
  proof (cases "sep \<noteq> [] \<and> prefix sep (c # cs)")
    case True
    then have st: "Split_from sep cur (c # cs) =
        cur # Split_from sep [] (drop (length sep) (c # cs))"
      by simp
    from True have sd: "sep @ drop (length sep) (c # cs) = c # cs"
      by (metis append_take_drop_id prefix_def append_eq_conv_conj)
    from True 2 have "Join_strings (Split_from sep [] (drop (length sep) (c # cs))) sep =
        drop (length sep) (c # cs)"
      by simp
    then have "Join_strings (Split_from sep cur (c # cs)) sep =
        cur @ sep @ drop (length sep) (c # cs)"
      unfolding st by (simp add: Join_strings_Cons Split_from_not_Nil)
    then show ?thesis
      unfolding sd .
  next
    case False
    with 2 show ?thesis by auto
  qed
qed

lemma Join_Split: "sep \<noteq> [] \<Longrightarrow> Join_strings (Split s sep) sep = s"
  by (simp add: Split_def Join_Split_from)

lemma Split_pair: "sep \<noteq> [] \<Longrightarrow> Split s sep = [a, b] \<Longrightarrow> s = a @ sep @ b"
  using Join_Split [of sep s] by simp

lemma HasSuffix_iff: "HasSuffix s suf \<longleftrightarrow> suffix suf s"
proof
  assume "HasSuffix s suf"
  then have "s = take (length s - length suf) s @ suf"
    by (metis HasSuffix_def append_take_drop_id)
  then show "suffix suf s" by (metis suffixI)
next
  assume "suffix suf s"
  then obtain p where "s = p @ suf" by (auto simp: suffix_def)
  then show "HasSuffix s suf" by (simp add: HasSuffix_def)
qed

lemma TrimSuffix_append: "HasSuffix s suf \<Longrightarrow> TrimSuffix s suf @ suf = s"
  by (metis HasSuffix_def TrimSuffix_def append_take_drop_id)

lemma json_suffix_after_agent:
  assumes "HasSuffix (a @ ''-agent-'' @ b) ''.json''"
  shows "HasSuffix b ''.json''"
proof -
  from assms have "suffix ''.json'' ((a @ ''-agent'') @ ''-'' @ b)"
    by (simp add: HasSuffix_iff)
  then consider "suffix ''.json'' (''-'' @ b)"
    | xs' where "''.json'' = xs' @ (''-'' @ b)" "suffix xs' (a @ ''-agent'')"
    unfolding suffix_append by blast
  then show ?thesis
  proof cases
    case 1
    then have "suffix ''.json'' b \<or> ''.json'' = ''-'' @ b"
      by (auto simp: suffix_Cons)
    then show ?thesis by (auto simp: HasSuffix_iff)
  next
    case 2
    from 2(1) have "CHR ''-'' \<in> set ''.json''"
      by (metis append_Cons in_set_conv_decomp)
    then show ?thesis by simp
  qed
qed

lemma entry_todolist_name:
  assumes "entry_todolist J fs todosPath entry = Some todoList"
  shows "de_Name entry = tl_SessionID todoList @ ''-agent-'' @ tl_AgentID todoList @ ''.json'' \<and>
     \<not> de_IsDir entry \<and> tl_Todos todoList \<noteq> [] \<and>
     TodoReader_Read J fs (filepath_Join todosPath (de_Name entry)) = Inr (tl_Todos todoList)"
proof -
  from assms obtain a b todos where
    sp: "Split (de_Name entry) ''-agent-'' = [a, b]" and suf: "HasSuffix (de_Name entry) ''.json''"
    and nd: "\<not> de_IsDir entry"
    and rd: "TodoReader_Read J fs (filepath_Join todosPath (de_Name entry)) = Inr todos"
    and ne: "todos \<noteq> []"
    and tl: "todoList = \<lparr>tl_SessionID = a, tl_AgentID = TrimSuffix b ''.json'', tl_Todos = todos\<rparr>"
    by (auto simp: entry_todolist_def split: if_splits list.splits sum.splits)
  from Split_pair [OF _ sp] have name: "de_Name entry = a @ ''-agent-'' @ b" by simp
  with suf have "HasSuffix b ''.json''"
    using json_suffix_after_agent by simp
  then have "TrimSuffix b ''.json'' @ ''.json'' = b" by (rule TrimSuffix_append)
  with name tl nd rd ne show ?thesis by simp
qed

lemma entry_project_explicit:
  assumes "de_IsDir entry" and "shouldProcessProject s (de_Name entry)"
    and "ReadDir fs (filepath_Join pp (de_Name entry)) = Some files"
  shows "entry_project J fs s pp entry =
     (if filter (shouldIncludeSession (options s))
           (List.map_filter (entry_session J fs (filepath_Join pp (de_Name entry)) (de_Name entry)) files) = []
      then None
      else Some
        \<lparr>prj_ID = de_Name entry, prj_Path = ReplaceAll (de_Name entry) ''-'' ''/'',
         prj_EncodedPath = de_Name entry,
         prj_Sessions =
           map (\<lambda>x. x\<lparr>ses_ProjectID := de_Name entry\<rparr>)
             (filter (shouldIncludeSession (options s))
                (List.map_filter (entry_session J fs (filepath_Join pp (de_Name entry)) (de_Name entry))
                   files)),
         prj_TodoLists = (if IncludeTodos (options s) then archive_todos J fs s else [])\<rparr>)"
  using assms
  by (simp add: entry_project_def scanProjectSessions_eq foldl_AddSession NewProject_def)

section \<open>Claims about the session aggregate\<close>

text \<open>
  C1, as stated: after each append \<^verbatim>\<open>StartTime\<close> is the minimum of the timestamps of the
  owned messages. It fails for a session that receives a record with the zero-valued
  timestamp (a record without a timestamp) and then a later one: the zero value is what
  \<^verbatim>\<open>AddMessage\<close> takes for "not set yet", so the second append overwrites the start.
\<close>

theorem AddMessage_bounds_counterexample:
  "ses_StartTime (foldl AddMessage zero_Session [msg_at ''user'' 0, msg_at ''user'' 5])
     \<noteq> Min (msg_Timestamp ` set [msg_at ''user'' 0, msg_at ''user'' 5])"
  by (simp add: AddMessage_def zero_Session_def msg_at_def IsZero_def Before_def After_def Let_def)

text \<open>
  C1, amended. For a session built from one with no messages and zero-valued bounds by
  appending \<open>msgs\<close> with \<^verbatim>\<open>AddMessage\<close> (every prefix of \<open>msgs\<close> is such a list, so this
  holds after each append): the messages are \<open>msgs\<close> in order; with no message both
  bounds are zero-valued and the duration is zero; \<^verbatim>\<open>StartTime\<close> is the minimum of the
  timestamps when no message has the zero-valued timestamp; \<^verbatim>\<open>EndTime\<close> is the maximum
  when some timestamp is not before the zero time; \<^verbatim>\<open>GetDuration\<close> is zero when either
  bound is zero-valued and \<^verbatim>\<open>EndTime.Sub(StartTime)\<close> otherwise, which is the difference
  when that fits a \<^verbatim>\<open>Duration\<close>.
\<close>

theorem AddMessage_bounds:
  assumes "ses_Messages s0 = []" and "ses_StartTime s0 = 0" and "ses_EndTime s0 = 0"
  shows "ses_Messages (foldl AddMessage s0 msgs) = msgs \<and>
     (msgs = [] \<longrightarrow>
        ses_StartTime (foldl AddMessage s0 msgs) = 0 \<and> ses_EndTime (foldl AddMessage s0 msgs) = 0 \<and>
        GetDuration (foldl AddMessage s0 msgs) = 0) \<and>
     (msgs \<noteq> [] \<and> (\<forall>m\<in>set msgs. msg_Timestamp m \<noteq> 0) \<longrightarrow>
        ses_StartTime (foldl AddMessage s0 msgs) = Min (msg_Timestamp ` set msgs)) \<and>
     ((\<exists>m\<in>set msgs. 0 \<le> msg_Timestamp m) \<longrightarrow>
        ses_EndTime (foldl AddMessage s0 msgs) = Max (msg_Timestamp ` set msgs)) \<and>
     GetDuration (foldl AddMessage s0 msgs) =
       (if ses_StartTime (foldl AddMessage s0 msgs) = 0 \<or> ses_EndTime (foldl AddMessage s0 msgs) = 0
        then 0
        else Sub (ses_EndTime (foldl AddMessage s0 msgs)) (ses_StartTime (foldl AddMessage s0 msgs))) \<and>
     (minDuration \<le> ses_EndTime (foldl AddMessage s0 msgs) - ses_StartTime (foldl AddMessage s0 msgs) \<and>
      ses_EndTime (foldl AddMessage s0 msgs) - ses_StartTime (foldl AddMessage s0 msgs) \<le> maxDuration \<longrightarrow>
        Sub (ses_EndTime (foldl AddMessage s0 msgs)) (ses_StartTime (foldl AddMessage s0 msgs)) =
          ses_EndTime (foldl AddMessage s0 msgs) - ses_StartTime (foldl AddMessage s0 msgs))"
proof -
  let ?s = "foldl AddMessage s0 msgs"
  have msgs: "ses_Messages ?s = msgs"
    using assms(1) by (simp add: foldl_AddMessage_Messages)
  have empty: "msgs = [] \<longrightarrow> ses_StartTime ?s = 0 \<and> ses_EndTime ?s = 0 \<and> GetDuration ?s = 0"
    using assms by (simp add: GetDuration_def IsZero_def)
  have start: "msgs \<noteq> [] \<and> (\<forall>m\<in>set msgs. msg_Timestamp m \<noteq> 0) \<longrightarrow>
      ses_StartTime ?s = Min (msg_Timestamp ` set msgs)"
    using foldl_AddMessage_StartTime [OF assms(2)] by blast
  have "ses_EndTime ?s = Max (msg_Timestamp ` set msgs)" if ex: "\<exists>m\<in>set msgs. 0 \<le> msg_Timestamp m"
  proof -
    from ex have ne: "msg_Timestamp ` set msgs \<noteq> {}" by auto
    from ex have "0 \<le> Max (msg_Timestamp ` set msgs)"
      by (meson List.finite_set Max_ge_iff finite_imageI imageI ne)
    moreover have "ses_EndTime ?s = max 0 (Max (msg_Timestamp ` set msgs))"
      using ne by (simp add: foldl_AddMessage_EndTime assms(3))
    ultimately show ?thesis by simp
  qed
  then have endt: "(\<exists>m\<in>set msgs. 0 \<le> msg_Timestamp m) \<longrightarrow>
      ses_EndTime ?s = Max (msg_Timestamp ` set msgs)" by blast
  have dur: "GetDuration ?s =
       (if ses_StartTime ?s = 0 \<or> ses_EndTime ?s = 0 then 0
        else Sub (ses_EndTime ?s) (ses_StartTime ?s))"
    by (simp add: GetDuration_def IsZero_def)
  have sat: "minDuration \<le> ses_EndTime ?s - ses_StartTime ?s \<and>
      ses_EndTime ?s - ses_StartTime ?s \<le> maxDuration \<longrightarrow>
        Sub (ses_EndTime ?s) (ses_StartTime ?s) = ses_EndTime ?s - ses_StartTime ?s"
    by (simp add: Sub_exact)
  from msgs empty start endt dur sat show ?thesis by blast
qed

theorem AddMessage_bounds_witness:
  "ses_Messages zero_Session = [] \<and> ses_StartTime zero_Session = 0 \<and> ses_EndTime zero_Session = 0 \<and>
   ses_StartTime
     (foldl AddMessage zero_Session [msg_at ''user'' 5, msg_at ''assistant'' 3, msg_at ''user'' 9]) = 3 \<and>
   ses_EndTime
     (foldl AddMessage zero_Session [msg_at ''user'' 5, msg_at ''assistant'' 3, msg_at ''user'' 9]) = 9 \<and>
   GetDuration
     (foldl AddMessage zero_Session [msg_at ''user'' 5, msg_at ''assistant'' 3, msg_at ''user'' 9]) = 6 \<and>
   GetDuration (foldl AddMessage zero_Session []) = 0"
proof -
  have z: "ses_Messages zero_Session = []" "ses_StartTime zero_Session = 0"
    "ses_EndTime zero_Session = 0"
    by (simp_all add: zero_Session_def)
  show ?thesis
    using AddMessage_bounds [OF z, of "[msg_at ''user'' 5, msg_at ''assistant'' 3, msg_at ''user'' 9]"]
      AddMessage_bounds [OF z, of "[]"] z
    by (simp add: msg_at_def minDuration_def maxDuration_def AddMessage_def Let_def IsZero_def
        Before_def After_def GetDuration_def Sub_def zero_Session_def)
qed

text \<open>
  C5. \<^verbatim>\<open>GetTokenUsage\<close> returns, in Go's \<^verbatim>\<open>int\<close> arithmetic, the sum over the assistant
  messages with decoded usage of \<^verbatim>\<open>input_tokens + cache_read_input_tokens\<close> and the sum over
  the same messages of \<^verbatim>\<open>output_tokens\<close>. A message that is not an assistant message, has
  undecoded content or lacks a usage block contributes nothing, wherever it stands, and
  the result does not depend on any \<^verbatim>\<open>cache_creation_input_tokens\<close>. Where the sums over
  the integers fit 64 bits, the results are these sums.
\<close>

theorem GetTokenUsage_sum:
  "GetTokenUsage s =
     (sum_list (map (\<lambda>u. InputTokens u + CacheReadInputTokens u)
        (List.map_filter decoded_usage (ses_Messages s))),
      sum_list (map OutputTokens (List.map_filter decoded_usage (ses_Messages s)))) \<and>
   (decoded_usage m = None \<longrightarrow>
      GetTokenUsage (s\<lparr>ses_Messages := xs @ m # ys\<rparr>) = GetTokenUsage (s\<lparr>ses_Messages := xs @ ys\<rparr>)) \<and>
   GetTokenUsage (s\<lparr>ses_Messages := map (with_cache_creation c) (ses_Messages s)\<rparr>) = GetTokenUsage s \<and>
   (fits_int64 (fst (int_token_usage (ses_Messages s))) \<longrightarrow>
      sint (fst (GetTokenUsage s)) = fst (int_token_usage (ses_Messages s))) \<and>
   (fits_int64 (snd (int_token_usage (ses_Messages s))) \<longrightarrow>
      sint (snd (GetTokenUsage s)) = snd (int_token_usage (ses_Messages s)))"
proof -
  have "GetTokenUsage s = spec_token_usage (ses_Messages s)"
    by (rule GetTokenUsage_spec)
  moreover have "decoded_usage m = None \<longrightarrow>
      GetTokenUsage (s\<lparr>ses_Messages := xs @ m # ys\<rparr>) = GetTokenUsage (s\<lparr>ses_Messages := xs @ ys\<rparr>)"
    by (simp add: GetTokenUsage_spec spec_token_usage_skip)
  moreover have "GetTokenUsage (s\<lparr>ses_Messages := map (with_cache_creation c) (ses_Messages s)\<rparr>) =
      GetTokenUsage s"
    by (simp add: GetTokenUsage_spec spec_token_usage_cache_creation)
  ultimately show ?thesis
    using spec_token_usage_int [of "ses_Messages s"]
    by (simp add: GetTokenUsage_spec) (simp add: spec_token_usage_def)
qed

theorem GetTokenUsage_sum_witness:
  "decoded_usage (msg_at ''user'' 1) = None \<and>
   fits_int64 (fst (int_token_usage
     [(msg_at ''assistant'' 2)\<lparr>msg_Content := assistant_content (Some (usage_of_counts 5 10 7 3))\<rparr>,
      (msg_at ''assistant'' 3)\<lparr>msg_Content := assistant_content None\<rparr>])) \<and>
   GetTokenUsage (zero_Session\<lparr>ses_Messages :=
     [(msg_at ''assistant'' 2)\<lparr>msg_Content := assistant_content (Some (usage_of_counts 5 10 7 3))\<rparr>,
      msg_at ''user'' 1,
      (msg_at ''assistant'' 3)\<lparr>msg_Content := assistant_content None\<rparr>]\<rparr>) = (8, 10) \<and>
   sint (fst (GetTokenUsage (zero_Session\<lparr>ses_Messages :=
     [(msg_at ''assistant'' 2)\<lparr>msg_Content := assistant_content (Some (usage_of_counts 5 10 7 3))\<rparr>,
      (msg_at ''assistant'' 3)\<lparr>msg_Content := assistant_content None\<rparr>]\<rparr>))) = 8"
  using GetTokenUsage_sum [of
      "zero_Session\<lparr>ses_Messages :=
        [(msg_at ''assistant'' 2)\<lparr>msg_Content := assistant_content (Some (usage_of_counts 5 10 7 3))\<rparr>,
         (msg_at ''assistant'' 3)\<lparr>msg_Content := assistant_content None\<rparr>]\<rparr>"
      "msg_at ''user'' 1"
      "[(msg_at ''assistant'' 2)\<lparr>msg_Content := assistant_content (Some (usage_of_counts 5 10 7 3))\<rparr>]"
      "[(msg_at ''assistant'' 3)\<lparr>msg_Content := assistant_content None\<rparr>]" 0]
  by (simp add: decoded_usage_def msg_at_def assistant_content_def usage_of_counts_def
      MessageTypeAssistant_def int_token_usage_def fits_int64_def List.map_filter_def)

section \<open>Claims about the JSONL reader\<close>

lemmas ex_defs = ex_fs_def ex_Decoder_def ex_u0_def ex_a1_def ex_a2_def ex_u3_def ex_a4_def
  zero_AssistantMessage_def msg_at_def
  usage_of_counts_def ex_todo_def ex_dir_def ex_file_def ex_options_def ex_Scanner_def

lemmas reader_defs = ReadSession_def ParseContent_def AddMessage_def zero_Session_def Let_def
  IsZero_def Before_def After_def MessageTypeUser_def MessageTypeAssistant_def session_of_def

text \<open>
  C4, as stated: blank lines are skipped silently. The reader skips a line only when its
  length is zero. A line of two spaces is blank, but it is handed to \<^verbatim>\<open>json.Unmarshal\<close>,
  which rejects it, and the reader writes a parse warning for it: in the example file
  the second line is such a line, and the warning for line 2 is written.
\<close>

theorem ReadSession_blank_line_counterexample:
  "Open_Scan ex_fs ''/d/x.jsonl'' = Some ([''{uuid:a4,type:assistant,ts:50}'', ''  ''], False) \<and>
   Unmarshal_Message ex_Decoder ''  '' = None \<and>
   fst (ReadSession ex_Decoder ex_fs ''/d/x.jsonl'') = [Warn_parse_line 2]"
  by (simp add: ex_defs reader_defs)

text \<open>
  C4, amended. For a session file that opens: the warnings written are, line by line and
  in order, those of \<open>line_warnings\<close>; a warning for a line that fails to parse carries
  the 1-based number \<open>n\<close> of that line, and there is one exactly for the lines that are
  not of length zero and do not parse as a record, a line of white space only included.
  Reading continues: when the stream ends without a scanner error, the messages of the
  session are the records of all the lines that parse, in order. Lines of length zero
  are skipped silently: they give no warning, and removing them from the stream gives
  the same session. In particular, when exactly two lines parse, whatever the number of
  malformed lines, the read succeeds with a session of exactly two messages.
\<close>

theorem ReadSession_tolerant:
  assumes "Open_Scan fs filePath = Some (lines, scan_err)"
  shows "fst (ReadSession J fs filePath) =
       concat (map (\<lambda>(i, l). line_warnings J (Suc i) l) (enumerate 0 lines)) \<and>
     (\<forall>n. Warn_parse_line n \<in> set (fst (ReadSession J fs filePath)) \<longleftrightarrow>
        0 < n \<and> n \<le> length lines \<and> lines ! (n - 1) \<noteq> [] \<and>
        Unmarshal_Message J (lines ! (n - 1)) = None) \<and>
     (\<not> scan_err \<longrightarrow>
        (case snd (ReadSession J fs filePath) of
           Inr s \<Rightarrow> ses_Messages s = List.map_filter (line_record J) lines
         | Inl e \<Rightarrow> e = NoMessagesFound \<and> List.map_filter (line_record J) lines = [])) \<and>
     snd (ReadSession_loop J (filter (\<lambda>l. l \<noteq> []) lines) 0 zero_Session) =
       snd (ReadSession_loop J lines 0 zero_Session) \<and>
     (\<not> scan_err \<and>
      length (filter (\<lambda>l. l \<noteq> [] \<and> Unmarshal_Message J l \<noteq> None) lines) = 2 \<longrightarrow>
        (\<exists>s. snd (ReadSession J fs filePath) = Inr s \<and> length (ses_Messages s) = 2))"
proof -
  let ?recs = "List.map_filter (line_record J) lines"
  note eq = ReadSession_eq [OF assms, of J]
  have ws: "fst (ReadSession J fs filePath) =
       concat (map (\<lambda>(i, l). line_warnings J (Suc i) l) (enumerate 0 lines))"
    by (simp add: eq)
  have res: "\<not> scan_err \<longrightarrow>
       (case snd (ReadSession J fs filePath) of
          Inr s \<Rightarrow> ses_Messages s = ?recs
        | Inl e \<Rightarrow> e = NoMessagesFound \<and> ?recs = [])"
    by (simp add: eq foldl_AddMessage_Messages zero_Session_def)
  have blank: "snd (ReadSession_loop J (filter (\<lambda>l. l \<noteq> []) lines) 0 zero_Session) =
       snd (ReadSession_loop J lines 0 zero_Session)"
    by (simp add: ReadSession_loop_eq map_filter_line_record_nonblank)
  have len: "length ?recs = length (filter (\<lambda>l. l \<noteq> [] \<and> Unmarshal_Message J l \<noteq> None) lines)"
    by (simp add: length_map_filter line_record_None_iff)
  have two: "\<exists>s. snd (ReadSession J fs filePath) = Inr s \<and> length (ses_Messages s) = 2"
    if "\<not> scan_err"
      and "length (filter (\<lambda>l. l \<noteq> [] \<and> Unmarshal_Message J l \<noteq> None) lines) = 2"
  proof -
    from that(2) len have l2: "length ?recs = 2" by simp
    then have "?recs \<noteq> []" by auto
    then show ?thesis
      using l2 that(1) by (simp add: eq foldl_AddMessage_Messages zero_Session_def)
  qed
  have pl: "\<forall>n. Warn_parse_line n \<in> set (fst (ReadSession J fs filePath)) \<longleftrightarrow>
        0 < n \<and> n \<le> length lines \<and> lines ! (n - 1) \<noteq> [] \<and>
        Unmarshal_Message J (lines ! (n - 1)) = None"
    unfolding ws by (intro allI parse_line_warning_iff)
  from ws pl res blank two show ?thesis by blast
qed

theorem ReadSession_tolerant_witness:
  "Open_Scan ex_fs ''/c/projects/-a/s1.jsonl'' =
     Some ([''{uuid:u0,type:user,ts:10}'', [], ''not json'', ''{uuid:a1,type:assistant,ts:20}''], False) \<and>
   length (filter (\<lambda>l. l \<noteq> [] \<and> Unmarshal_Message ex_Decoder l \<noteq> None)
     [''{uuid:u0,type:user,ts:10}'', [], ''not json'', ''{uuid:a1,type:assistant,ts:20}'']) = 2 \<and>
   fst (ReadSession ex_Decoder ex_fs ''/c/projects/-a/s1.jsonl'') = [Warn_parse_line 3] \<and>
   length (ses_Messages (session_of (ReadSession ex_Decoder ex_fs ''/c/projects/-a/s1.jsonl''))) = 2"
proof -
  have o: "Open_Scan ex_fs ''/c/projects/-a/s1.jsonl'' =
     Some ([''{uuid:u0,type:user,ts:10}'', [], ''not json'', ''{uuid:a1,type:assistant,ts:20}''], False)"
    by (simp add: ex_fs_def)
  have n: "length (filter (\<lambda>l. l \<noteq> [] \<and> Unmarshal_Message ex_Decoder l \<noteq> None)
     [''{uuid:u0,type:user,ts:10}'', [], ''not json'', ''{uuid:a1,type:assistant,ts:20}'']) = 2"
    by (simp add: ex_Decoder_def)
  have w: "fst (ReadSession ex_Decoder ex_fs ''/c/projects/-a/s1.jsonl'') = [Warn_parse_line 3]"
    by (simp add: ex_defs reader_defs)
  have m: "length (ses_Messages (session_of (ReadSession ex_Decoder ex_fs ''/c/projects/-a/s1.jsonl''))) = 2"
    by (simp add: ex_defs reader_defs)
  from ReadSession_tolerant [OF o, of ex_Decoder] o n w m show ?thesis
    by blast
qed

text \<open>
  C7, as stated: the identity of the session is the session identifier of its first
  record, empty when the first record carries none. In the example file the first record
  carries no session identifier and the second carries \<^verbatim>\<open>s1\<close>: the session gets \<^verbatim>\<open>s1\<close>.
\<close>

theorem ReadSession_first_id_counterexample:
  "ses_ID (session_of (ReadSession ex_Decoder ex_fs ''/c/projects/-a/s1.jsonl'')) = ''s1'' \<and>
   msg_SessionID (hd (ses_Messages (session_of (ReadSession ex_Decoder ex_fs ''/c/projects/-a/s1.jsonl'')))) = []"
  by (simp add: ex_defs reader_defs)

text \<open>
  C7, amended. The identity of a session produced by the reader is the first session
  identifier that is not empty among its records, in file order; it is empty exactly when
  no record carries one.
\<close>

theorem ReadSession_id:
  "snd (ReadSession J fs filePath) = Inr s \<longrightarrow>
     ses_ID s = first_session_id (ses_Messages s) \<and>
     (ses_ID s = [] \<longleftrightarrow> (\<forall>m\<in>set (ses_Messages s). msg_SessionID m = []))"
proof
  assume r: "snd (ReadSession J fs filePath) = Inr s"
  then obtain lines scan_err where o: "Open_Scan fs filePath = Some (lines, scan_err)"
    by (cases "Open_Scan fs filePath") (auto simp: ReadSession_def)
  let ?recs = "List.map_filter (line_record J) lines"
  from r ReadSession_eq [OF o, of J]
  have s: "s = (foldl AddMessage zero_Session ?recs)\<lparr>ses_ID := first_session_id ?recs\<rparr>"
    by (auto split: if_splits)
  then have m: "ses_Messages s = ?recs"
    by (simp add: foldl_AddMessage_Messages zero_Session_def)
  have id: "ses_ID s = first_session_id (ses_Messages s)"
    using s m by simp
  have "first_session_id ms = [] \<longleftrightarrow> (\<forall>m\<in>set ms. msg_SessionID m = [])" for ms
  proof (cases "filter (\<lambda>m. msg_SessionID m \<noteq> []) ms")
    case Nil
    then show ?thesis by (auto simp: first_session_id_def filter_empty_conv)
  next
    case (Cons a as)
    then have "a \<in> set (filter (\<lambda>m. msg_SessionID m \<noteq> []) ms)" by simp
    then have "a \<in> set ms" "msg_SessionID a \<noteq> []" by auto
    then show ?thesis using Cons by (auto simp: first_session_id_def)
  qed
  with id show "ses_ID s = first_session_id (ses_Messages s) \<and>
     (ses_ID s = [] \<longleftrightarrow> (\<forall>m\<in>set (ses_Messages s). msg_SessionID m = []))"
    by simp
qed

theorem ReadSession_id_witness:
  "snd (ReadSession ex_Decoder ex_fs ''/c/projects/-a/s1.jsonl'') =
     Inr (session_of (ReadSession ex_Decoder ex_fs ''/c/projects/-a/s1.jsonl'')) \<and>
   ses_ID (session_of (ReadSession ex_Decoder ex_fs ''/c/projects/-a/s1.jsonl'')) = ''s1'' \<and>
   first_session_id (ses_Messages (session_of (ReadSession ex_Decoder ex_fs ''/c/projects/-a/s1.jsonl'')))
     = ''s1''"
proof -
  have r: "snd (ReadSession ex_Decoder ex_fs ''/c/projects/-a/s1.jsonl'') =
     Inr (session_of (ReadSession ex_Decoder ex_fs ''/c/projects/-a/s1.jsonl''))"
    by (simp add: ex_defs reader_defs)
  have "ses_ID (session_of (ReadSession ex_Decoder ex_fs ''/c/projects/-a/s1.jsonl'')) = ''s1''"
    by (simp add: ex_defs reader_defs)
  with r ReadSession_id [of ex_Decoder ex_fs "''/c/projects/-a/s1.jsonl''"
      "session_of (ReadSession ex_Decoder ex_fs ''/c/projects/-a/s1.jsonl'')"]
  show ?thesis by simp
qed

text \<open>
  C9, as stated: a record of type assistant whose payload does not match the assistant
  schema keeps its content nil. The code has no check of the schema of its own: the
  content stays nil exactly when \<^verbatim>\<open>json.Unmarshal\<close> returns an error. The payload \<^verbatim>\<open>{}\<close>
  has none of the fields of the schema, \<^verbatim>\<open>json.Unmarshal\<close> accepts it, and the content of
  the message becomes the zero assistant message, in \<^verbatim>\<open>ParseContent\<close> and in the session
  that the reader builds from the example file.
\<close>

theorem ParseContent_schema_counterexample:
  "msg_Type ex_a4 = MessageTypeAssistant \<and> msg_Message ex_a4 = ''{}'' \<and>
   ParseContent ex_Decoder ex_a4 =
     (None, ex_a4\<lparr>msg_Content := AssistantMessage_content zero_AssistantMessage\<rparr>) \<and>
   map msg_Content (ses_Messages (session_of (ReadSession ex_Decoder ex_fs ''/d/x.jsonl''))) =
     [AssistantMessage_content zero_AssistantMessage]"
  by (simp add: ex_defs reader_defs)

text \<open>
  C9, amended. For a record of type assistant whose payload \<^verbatim>\<open>json.Unmarshal\<close> rejects
  for the assistant message struct, \<^verbatim>\<open>ParseContent\<close> returns the error and leaves the
  message as it is, so its content stays nil; for a payload that \<^verbatim>\<open>json.Unmarshal\<close>
  accepts, whatever its fields, the content is set to the decoded assistant message. The
  reader only warns: a record of a session file whose payload is rejected is appended to
  the session, undecoded, and the session has one message for each line that parses as a
  record, whatever the decoding of the contents gives.
\<close>

theorem ParseContent_best_effort:
  "(msg_Type m = MessageTypeAssistant \<and> Unmarshal_AssistantMessage J (msg_Message m) = None \<longrightarrow>
      ParseContent J m = (Some UnmarshalError, m)) \<and>
   (msg_Type m' = MessageTypeAssistant \<and> Unmarshal_AssistantMessage J (msg_Message m') = Some a \<longrightarrow>
      ParseContent J m' = (None, m'\<lparr>msg_Content := AssistantMessage_content a\<rparr>)) \<and>
   (Open_Scan fs filePath = Some (lines, False) \<and> l \<in> set lines \<and> l \<noteq> [] \<and>
    Unmarshal_Message J l = Some d \<and> msg_Type d = MessageTypeAssistant \<and>
    Unmarshal_AssistantMessage J (msg_Message d) = None \<longrightarrow>
      (\<exists>s. snd (ReadSession J fs filePath) = Inr s \<and>
           d\<lparr>msg_Content := Nil_content\<rparr> \<in> set (ses_Messages s))) \<and>
   (Open_Scan fs filePath = Some (lines, False) \<and> snd (ReadSession J fs filePath) = Inr s \<longrightarrow>
      length (ses_Messages s) =
        length (filter (\<lambda>l. l \<noteq> [] \<and> Unmarshal_Message J l \<noteq> None) lines))"
proof -
  have a: "msg_Type m = MessageTypeAssistant \<and> Unmarshal_AssistantMessage J (msg_Message m) = None \<longrightarrow>
      ParseContent J m = (Some UnmarshalError, m)"
    by (simp add: ParseContent_assistant_mismatch)
  have b: "\<exists>s. snd (ReadSession J fs filePath) = Inr s \<and>
           d\<lparr>msg_Content := Nil_content\<rparr> \<in> set (ses_Messages s)"
    if o: "Open_Scan fs filePath = Some (lines, False)" and l: "l \<in> set lines" "l \<noteq> []"
      and d: "Unmarshal_Message J l = Some d" "msg_Type d = MessageTypeAssistant"
        "Unmarshal_AssistantMessage J (msg_Message d) = None"
  proof -
    have "ParseContent J (d\<lparr>msg_Content := Nil_content\<rparr>) =
        (Some UnmarshalError, d\<lparr>msg_Content := Nil_content\<rparr>)"
      using d by (intro ParseContent_assistant_mismatch) simp_all
    then have "line_record J l = Some (d\<lparr>msg_Content := Nil_content\<rparr>)"
      using l d by (simp add: line_record_def)
    then have "d\<lparr>msg_Content := Nil_content\<rparr> \<in> set (List.map_filter (line_record J) lines)"
      using l(1) by (force simp: List.map_filter_def)
    then show ?thesis
      using ReadSession_eq [OF o, of J]
      by (auto simp: foldl_AddMessage_Messages zero_Session_def)
  qed
  have c: "length (ses_Messages s) =
        length (filter (\<lambda>l. l \<noteq> [] \<and> Unmarshal_Message J l \<noteq> None) lines)"
    if o: "Open_Scan fs filePath = Some (lines, False)" and r: "snd (ReadSession J fs filePath) = Inr s"
  proof -
    from r ReadSession_eq [OF o, of J]
    have "ses_Messages s = List.map_filter (line_record J) lines"
      by (auto simp: foldl_AddMessage_Messages zero_Session_def split: if_splits)
    then show ?thesis
      by (simp add: length_map_filter line_record_None_iff)
  qed
  have a': "msg_Type m' = MessageTypeAssistant \<and>
      Unmarshal_AssistantMessage J (msg_Message m') = Some a \<longrightarrow>
      ParseContent J m' = (None, m'\<lparr>msg_Content := AssistantMessage_content a\<rparr>)"
    by (simp add: ParseContent_def MessageTypeAssistant_def MessageTypeUser_def)
  from a a' b c show ?thesis by blast
qed

theorem ParseContent_best_effort_witness:
  "msg_Type ex_a2 = MessageTypeAssistant \<and>
   Unmarshal_AssistantMessage ex_Decoder (msg_Message ex_a2) = None \<and>
   Open_Scan ex_fs ''/c/projects/-b/s2.jsonl'' = Some ([''{uuid:a2,type:assistant,ts:30}''], False) \<and>
   Unmarshal_Message ex_Decoder ''{uuid:a2,type:assistant,ts:30}'' = Some ex_a2 \<and>
   ParseContent ex_Decoder ex_a2 = (Some UnmarshalError, ex_a2) \<and>
   ses_Messages (session_of (ReadSession ex_Decoder ex_fs ''/c/projects/-b/s2.jsonl'')) =
     [ex_a2\<lparr>msg_Content := Nil_content\<rparr>] \<and>
   msg_Type ex_a4 = MessageTypeAssistant \<and>
   Unmarshal_AssistantMessage ex_Decoder (msg_Message ex_a4) = Some zero_AssistantMessage \<and>
   ParseContent ex_Decoder ex_a4 =
     (None, ex_a4\<lparr>msg_Content := AssistantMessage_content zero_AssistantMessage\<rparr>)"
proof -
  have o: "Open_Scan ex_fs ''/c/projects/-b/s2.jsonl'' = Some ([''{uuid:a2,type:assistant,ts:30}''], False)"
    by (simp add: ex_fs_def)
  have t: "msg_Type ex_a2 = MessageTypeAssistant"
    "Unmarshal_AssistantMessage ex_Decoder (msg_Message ex_a2) = None"
    "Unmarshal_Message ex_Decoder ''{uuid:a2,type:assistant,ts:30}'' = Some ex_a2"
    by (simp_all add: ex_defs MessageTypeAssistant_def)
  have t': "msg_Type ex_a4 = MessageTypeAssistant"
    "Unmarshal_AssistantMessage ex_Decoder (msg_Message ex_a4) = Some zero_AssistantMessage"
    by (simp_all add: ex_defs MessageTypeAssistant_def)
  have m: "ses_Messages (session_of (ReadSession ex_Decoder ex_fs ''/c/projects/-b/s2.jsonl'')) =
     [ex_a2\<lparr>msg_Content := Nil_content\<rparr>]"
    by (simp add: ex_defs reader_defs)
  note inst = ParseContent_best_effort [where m = ex_a2 and J = ex_Decoder and m' = ex_a4
      and a = zero_AssistantMessage and fs = ex_fs and filePath = "''/c/projects/-b/s2.jsonl''"
      and lines = "[''{uuid:a2,type:assistant,ts:30}'']" and l = "''{uuid:a2,type:assistant,ts:30}''"
      and d = ex_a2 and s = "session_of (ReadSession ex_Decoder ex_fs ''/c/projects/-b/s2.jsonl'')"]
  from inst t have p: "ParseContent ex_Decoder ex_a2 = (Some UnmarshalError, ex_a2)"
    by blast
  from inst t' have p': "ParseContent ex_Decoder ex_a4 =
     (None, ex_a4\<lparr>msg_Content := AssistantMessage_content zero_AssistantMessage\<rparr>)"
    by blast
  from o t t' m p p' show ?thesis by blast
qed

section \<open>Claims about the scanner\<close>

text \<open>
  C3. For a scan with \<^verbatim>\<open>MaxSessions = m > 0\<close> of an archive whose projects directory exists
  and lists \<open>entries\<close>: the retained sessions that are available are those of the
  projects \<open>entry_project\<close> of the entries, that is, for each directory passing the path
  filter, the sessions of its session files that read without failure and pass the date
  filter (last conjunct). The scan returns that list of projects cut where the
  cumulative count of retained sessions reaches \<open>m\<close>, the project whose session
  completes the limit included and last (\<open>cap_projects\<close>); the scan without a limit
  returns the whole list. The total number of sessions returned is the minimum of \<open>m\<close>
  and the number available: it never exceeds \<open>m\<close>, and it is exactly \<open>m\<close> when at least
  \<open>m\<close> retained sessions are available. Every scan that returns projects is of this
  form. Once the count reaches the limit the loop over the project directories stops:
  the entries that follow change neither the projects returned nor the warnings written.
\<close>

theorem ScanProjects_session_cap:
  assumes "0 < MaxSessions (options s)"
  shows "(\<not> Stat_IsNotExist fs (filepath_Join (basePath s) ''projects'') \<and>
      ReadDir fs (filepath_Join (basePath s) ''projects'') = Some entries \<longrightarrow>
        snd (ScanProjects J fs s) =
          Inr (cap_projects (nat (MaxSessions (options s)))
                 (List.map_filter (entry_project J fs s (filepath_Join (basePath s) ''projects'')) entries)) \<and>
        snd (ScanProjects J fs (s\<lparr>options := (options s)\<lparr>MaxSessions := 0\<rparr>\<rparr>)) =
          Inr (List.map_filter (entry_project J fs s (filepath_Join (basePath s) ''projects'')) entries) \<and>
        total_sessions
          (cap_projects (nat (MaxSessions (options s)))
             (List.map_filter (entry_project J fs s (filepath_Join (basePath s) ''projects'')) entries)) =
          min (nat (MaxSessions (options s)))
            (total_sessions
               (List.map_filter (entry_project J fs s (filepath_Join (basePath s) ''projects'')) entries))) \<and>
     (snd (ScanProjects J fs s) = Inr ps \<longrightarrow>
        (\<exists>es. \<not> Stat_IsNotExist fs (filepath_Join (basePath s) ''projects'') \<and>
           ReadDir fs (filepath_Join (basePath s) ''projects'') = Some es \<and>
           ps = cap_projects (nat (MaxSessions (options s)))
                  (List.map_filter (entry_project J fs s (filepath_Join (basePath s) ''projects'')) es)) \<and>
        (\<exists>ps0. snd (ScanProjects J fs (s\<lparr>options := (options s)\<lparr>MaxSessions := 0\<rparr>\<rparr>)) = Inr ps0 \<and>
            ps = cap_projects (nat (MaxSessions (options s))) ps0 \<and>
            (nat (MaxSessions (options s)) \<le> total_sessions ps0 \<longrightarrow>
               total_sessions ps = nat (MaxSessions (options s))) \<and>
            (total_sessions ps0 < nat (MaxSessions (options s)) \<longrightarrow> ps = ps0)) \<and>
        total_sessions ps \<le> nat (MaxSessions (options s))) \<and>
     (\<forall>es1 es2 projects n.
        n < MaxSessions (options s) \<and>
        nat (MaxSessions (options s) - n) \<le> total_sessions (List.map_filter (entry_project J fs s pp) es1) \<longrightarrow>
          ScanProjects_loop J fs s pp (es1 @ es2) projects n =
          ScanProjects_loop J fs s pp es1 projects n) \<and>
     (de_IsDir entry \<and> shouldProcessProject s (de_Name entry) \<and>
      ReadDir fs (filepath_Join pp (de_Name entry)) = Some files \<longrightarrow>
        entry_project J fs s pp entry =
          (if filter (shouldIncludeSession (options s))
                (List.map_filter (entry_session J fs (filepath_Join pp (de_Name entry)) (de_Name entry))
                   files) = []
           then None
           else Some
             \<lparr>prj_ID = de_Name entry, prj_Path = ReplaceAll (de_Name entry) ''-'' ''/'',
              prj_EncodedPath = de_Name entry,
              prj_Sessions =
                map (\<lambda>x. x\<lparr>ses_ProjectID := de_Name entry\<rparr>)
                  (filter (shouldIncludeSession (options s))
                     (List.map_filter
                        (entry_session J fs (filepath_Join pp (de_Name entry)) (de_Name entry)) files)),
              prj_TodoLists = (if IncludeTodos (options s) then archive_todos J fs s else [])\<rparr>))"
proof -
  let ?k = "nat (MaxSessions (options s))"
  let ?pp = "filepath_Join (basePath s) ''projects''"
  let ?s0 = "s\<lparr>options := (options s)\<lparr>MaxSessions := 0\<rparr>\<rparr>"
  from assms have k: "0 < ?k" by simp
  have abs: "\<not> Stat_IsNotExist fs ?pp \<and> ReadDir fs ?pp = Some entries \<longrightarrow>
        snd (ScanProjects J fs s) =
          Inr (cap_projects ?k (List.map_filter (entry_project J fs s ?pp) entries)) \<and>
        snd (ScanProjects J fs ?s0) = Inr (List.map_filter (entry_project J fs s ?pp) entries) \<and>
        total_sessions (cap_projects ?k (List.map_filter (entry_project J fs s ?pp) entries)) =
          min ?k (total_sessions (List.map_filter (entry_project J fs s ?pp) entries))"
    using assms total_sessions_cap_projects [OF k]
    by (simp add: ScanProjects_result entry_project_MaxSessions)
  have rel: "(\<exists>es. \<not> Stat_IsNotExist fs ?pp \<and> ReadDir fs ?pp = Some es \<and>
           ps = cap_projects ?k (List.map_filter (entry_project J fs s ?pp) es)) \<and>
        (\<exists>ps0. snd (ScanProjects J fs ?s0) = Inr ps0 \<and> ps = cap_projects ?k ps0 \<and>
            (?k \<le> total_sessions ps0 \<longrightarrow> total_sessions ps = ?k) \<and>
            (total_sessions ps0 < ?k \<longrightarrow> ps = ps0)) \<and>
        total_sessions ps \<le> ?k"
    if r: "snd (ScanProjects J fs s) = Inr ps"
  proof -
    from r assms have es: "\<exists>es. \<not> Stat_IsNotExist fs ?pp \<and> ReadDir fs ?pp = Some es \<and>
           ps = cap_projects ?k (List.map_filter (entry_project J fs s ?pp) es)"
      by (auto simp: ScanProjects_result split: if_splits option.splits)
    from ScanProjects_capped [OF assms r] obtain ps0 where
      ps0: "snd (ScanProjects J fs ?s0) = Inr ps0" and ps: "ps = cap_projects ?k ps0"
      by blast
    have tot: "total_sessions ps = min ?k (total_sessions ps0)"
      using ps total_sessions_cap_projects [OF k] by simp
    have a: "\<exists>ps0. snd (ScanProjects J fs ?s0) = Inr ps0 \<and> ps = cap_projects ?k ps0 \<and>
            (?k \<le> total_sessions ps0 \<longrightarrow> total_sessions ps = ?k) \<and>
            (total_sessions ps0 < ?k \<longrightarrow> ps = ps0)"
      using ps0 ps tot by (auto simp: cap_projects_not_reached)
    have b: "total_sessions ps \<le> ?k"
      using tot by simp
    from es a b show ?thesis by blast
  qed
  have stop: "\<forall>es1 es2 projects n.
        n < MaxSessions (options s) \<and>
        nat (MaxSessions (options s) - n) \<le> total_sessions (List.map_filter (entry_project J fs s pp) es1) \<longrightarrow>
          ScanProjects_loop J fs s pp (es1 @ es2) projects n =
          ScanProjects_loop J fs s pp es1 projects n"
    using ScanProjects_loop_stops [OF assms] by blast
  note ex = entry_project_explicit [of entry s fs pp files J]
  from abs rel stop ex show ?thesis by blast
qed

theorem ScanProjects_session_cap_witness:
  "0 < MaxSessions (options (ex_Scanner 2)) \<and>
   \<not> Stat_IsNotExist ex_fs (filepath_Join (basePath (ex_Scanner 2)) ''projects'') \<and>
   ReadDir ex_fs (filepath_Join (basePath (ex_Scanner 2)) ''projects'') =
     Some [ex_dir ''-a'', ex_file ''README'', ex_dir ''-b''] \<and>
   snd (ScanProjects ex_Decoder ex_fs (ex_Scanner 2)) =
     Inr (cap_projects (nat (MaxSessions (options (ex_Scanner 2))))
            (List.map_filter
               (entry_project ex_Decoder ex_fs (ex_Scanner 2)
                  (filepath_Join (basePath (ex_Scanner 2)) ''projects''))
               [ex_dir ''-a'', ex_file ''README'', ex_dir ''-b''])) \<and>
   map ses_ID (concat (map prj_Sessions
     (List.map_filter (entry_project ex_Decoder ex_fs (ex_Scanner 2) ''/c/projects'')
        [ex_dir ''-a'', ex_file ''README'', ex_dir ''-b'']))) = [''s1'', ''s2'', ''s3''] \<and>
   map ses_ID (concat (map prj_Sessions (projects_of (ScanProjects ex_Decoder ex_fs (ex_Scanner 2))))) =
     [''s1'', ''s2''] \<and>
   total_sessions (projects_of (ScanProjects ex_Decoder ex_fs (ex_Scanner 0))) = 3 \<and>
   total_sessions (projects_of (ScanProjects ex_Decoder ex_fs (ex_Scanner 2))) = 2 \<and>
   ScanProjects_loop ex_Decoder ex_fs (ex_Scanner 2) ''/c/projects''
     ([ex_dir ''-a'', ex_file ''README'', ex_dir ''-b''] @ [ex_dir ''-c'']) [] 0 =
   ScanProjects_loop ex_Decoder ex_fs (ex_Scanner 2) ''/c/projects''
     [ex_dir ''-a'', ex_file ''README'', ex_dir ''-b''] [] 0"
proof -
  have m: "0 < MaxSessions (options (ex_Scanner 2))"
    by (simp add: ex_Scanner_def)
  have d: "\<not> Stat_IsNotExist ex_fs (filepath_Join (basePath (ex_Scanner 2)) ''projects'')"
    "ReadDir ex_fs (filepath_Join (basePath (ex_Scanner 2)) ''projects'') =
       Some [ex_dir ''-a'', ex_file ''README'', ex_dir ''-b'']"
    by (simp_all add: ex_Scanner_def ex_fs_def filepath_Join_def)
  have av: "map ses_ID (concat (map prj_Sessions
     (List.map_filter (entry_project ex_Decoder ex_fs (ex_Scanner 2) ''/c/projects'')
        [ex_dir ''-a'', ex_file ''README'', ex_dir ''-b'']))) = [''s1'', ''s2'', ''s3'']"
    by code_simp
  have got: "map ses_ID (concat (map prj_Sessions
      (projects_of (ScanProjects ex_Decoder ex_fs (ex_Scanner 2))))) = [''s1'', ''s2'']"
    by code_simp
  have t0: "total_sessions (projects_of (ScanProjects ex_Decoder ex_fs (ex_Scanner 0))) = 3"
    by code_simp
  have t2: "total_sessions (projects_of (ScanProjects ex_Decoder ex_fs (ex_Scanner 2))) = 2"
    by code_simp
  have reach: "(0::int) < MaxSessions (options (ex_Scanner 2)) \<and>
      nat (MaxSessions (options (ex_Scanner 2)) - 0) \<le>
        total_sessions (List.map_filter (entry_project ex_Decoder ex_fs (ex_Scanner 2) ''/c/projects'')
          [ex_dir ''-a'', ex_file ''README'', ex_dir ''-b''])"
    by code_simp
  note inst = ScanProjects_session_cap [OF m, where fs = ex_fs and J = ex_Decoder
      and entries = "[ex_dir ''-a'', ex_file ''README'', ex_dir ''-b'']" and pp = "''/c/projects''"]
  from inst d have abs: "snd (ScanProjects ex_Decoder ex_fs (ex_Scanner 2)) =
     Inr (cap_projects (nat (MaxSessions (options (ex_Scanner 2))))
            (List.map_filter
               (entry_project ex_Decoder ex_fs (ex_Scanner 2)
                  (filepath_Join (basePath (ex_Scanner 2)) ''projects''))
               [ex_dir ''-a'', ex_file ''README'', ex_dir ''-b'']))"
    by blast
  from inst reach
  have stop: "ScanProjects_loop ex_Decoder ex_fs (ex_Scanner 2) ''/c/projects''
     ([ex_dir ''-a'', ex_file ''README'', ex_dir ''-b''] @ [ex_dir ''-c'']) [] 0 =
   ScanProjects_loop ex_Decoder ex_fs (ex_Scanner 2) ''/c/projects''
     [ex_dir ''-a'', ex_file ''README'', ex_dir ''-b''] [] 0"
    by blast
  from m d abs av got t0 t2 stop show ?thesis by blast
qed

text \<open>
  C6. A session file that opens, whose stream ends without a scanner error and none of
  whose lines parses as a record, makes \<^verbatim>\<open>ReadSession\<close> fail with "no messages found". The
  failure is local to the file: \<^verbatim>\<open>scanProjectSessions\<close> writes the warning for the file and
  returns the sessions of the entries before it followed by those of the entries after
  it, and \<^verbatim>\<open>ScanProjects\<close>, for a projects directory that exists and lists, returns the
  projects of all the project directories (up to the session limit), never an error.
\<close>

theorem ReadSession_no_messages_local:
  "(Open_Scan fs filePath = Some (lines, False) \<and>
    (\<forall>l\<in>set lines. l = [] \<or> Unmarshal_Message J l = None) \<longrightarrow>
      snd (ReadSession J fs filePath) = Inl NoMessagesFound) \<and>
   (ReadDir fs projectPath = Some (before @ entry # after) \<and> \<not> de_IsDir entry \<and>
    HasSuffix (de_Name entry) ''.jsonl'' \<and>
    snd (ReadSession J fs (filepath_Join projectPath (de_Name entry))) = Inl NoMessagesFound \<longrightarrow>
      snd (scanProjectSessions J fs projectPath projectID) =
        Inr (List.map_filter (entry_session J fs projectPath projectID) before @
             List.map_filter (entry_session J fs projectPath projectID) after) \<and>
      Warn_read_session_file (filepath_Join projectPath (de_Name entry)) NoMessagesFound
        \<in> set (fst (scanProjectSessions J fs projectPath projectID))) \<and>
   (\<not> Stat_IsNotExist fs (filepath_Join (basePath s) ''projects'') \<and>
    ReadDir fs (filepath_Join (basePath s) ''projects'') = Some entries \<longrightarrow>
      snd (ScanProjects J fs s) =
        Inr (if 0 < MaxSessions (options s)
             then cap_projects (nat (MaxSessions (options s)))
                    (List.map_filter
                       (entry_project J fs s (filepath_Join (basePath s) ''projects'')) entries)
             else List.map_filter
                    (entry_project J fs s (filepath_Join (basePath s) ''projects'')) entries))"
proof -
  have a: "snd (ReadSession J fs filePath) = Inl NoMessagesFound"
    if o: "Open_Scan fs filePath = Some (lines, False)"
      and n: "\<forall>l\<in>set lines. l = [] \<or> Unmarshal_Message J l = None"
  proof -
    from n have "List.map_filter (line_record J) lines = []"
      by (simp add: map_filter_Nil_iff line_record_None_iff)
    then show ?thesis by (simp add: ReadSession_eq [OF o])
  qed
  have b: "snd (scanProjectSessions J fs projectPath projectID) =
        Inr (List.map_filter (entry_session J fs projectPath projectID) before @
             List.map_filter (entry_session J fs projectPath projectID) after) \<and>
      Warn_read_session_file (filepath_Join projectPath (de_Name entry)) NoMessagesFound
        \<in> set (fst (scanProjectSessions J fs projectPath projectID))"
    if "ReadDir fs projectPath = Some (before @ entry # after)" "\<not> de_IsDir entry"
      "HasSuffix (de_Name entry) ''.jsonl''"
      "snd (ReadSession J fs (filepath_Join projectPath (de_Name entry))) = Inl NoMessagesFound"
    using that
    by (simp add: scanProjectSessions_eq map_filter_append map_filter_Cons_None entry_session_def
        entry_warnings_def)
  have c: "\<not> Stat_IsNotExist fs (filepath_Join (basePath s) ''projects'') \<and>
    ReadDir fs (filepath_Join (basePath s) ''projects'') = Some entries \<longrightarrow>
      snd (ScanProjects J fs s) =
        Inr (if 0 < MaxSessions (options s)
             then cap_projects (nat (MaxSessions (options s)))
                    (List.map_filter
                       (entry_project J fs s (filepath_Join (basePath s) ''projects'')) entries)
             else List.map_filter
                    (entry_project J fs s (filepath_Join (basePath s) ''projects'')) entries)"
    by (simp add: ScanProjects_result)
  from a b c show ?thesis by blast
qed

theorem ReadSession_no_messages_local_witness:
  "Open_Scan ex_fs ''/c/projects/-b/bad.jsonl'' = Some ([[], ''not json''], False) \<and>
   Unmarshal_Message ex_Decoder ''not json'' = None \<and>
   snd (ReadSession ex_Decoder ex_fs ''/c/projects/-b/bad.jsonl'') = Inl NoMessagesFound \<and>
   ReadDir ex_fs ''/c/projects/-b'' =
     Some ([] @ ex_file ''bad.jsonl'' # [ex_file ''s2.jsonl'', ex_file ''s3.jsonl'']) \<and>
   map ses_ID (sessions_of (scanProjectSessions ex_Decoder ex_fs ''/c/projects/-b'' ''-b'')) =
     [''s2'', ''s3''] \<and>
   Warn_read_session_file ''/c/projects/-b/bad.jsonl'' NoMessagesFound
     \<in> set (fst (scanProjectSessions ex_Decoder ex_fs ''/c/projects/-b'' ''-b'')) \<and>
   map prj_ID (projects_of (ScanProjects ex_Decoder ex_fs (ex_Scanner 0))) = [''-a'', ''-b'']"
proof -
  have o: "Open_Scan ex_fs ''/c/projects/-b/bad.jsonl'' = Some ([[], ''not json''], False)"
    by (simp add: ex_fs_def)
  have u: "Unmarshal_Message ex_Decoder ''not json'' = None"
    by (simp add: ex_Decoder_def)
  then have n: "\<forall>l\<in>set [[], ''not json'']. l = [] \<or> Unmarshal_Message ex_Decoder l = None"
    by simp
  have d: "ReadDir ex_fs ''/c/projects/-b'' =
     Some ([] @ ex_file ''bad.jsonl'' # [ex_file ''s2.jsonl'', ex_file ''s3.jsonl''])"
    by (simp add: ex_fs_def)
  have e: "\<not> de_IsDir (ex_file ''bad.jsonl'')" "HasSuffix (de_Name (ex_file ''bad.jsonl'')) ''.jsonl''"
    "filepath_Join ''/c/projects/-b'' (de_Name (ex_file ''bad.jsonl'')) = ''/c/projects/-b/bad.jsonl''"
    by (simp_all add: ex_file_def HasSuffix_def filepath_Join_def)
  note inst = ReadSession_no_messages_local [of ex_fs "''/c/projects/-b/bad.jsonl''"
      "[[], ''not json'']" ex_Decoder "''/c/projects/-b''" "[]" "ex_file ''bad.jsonl''"
      "[ex_file ''s2.jsonl'', ex_file ''s3.jsonl'']" "''-b''" "ex_Scanner 0"]
  from inst o n have r: "snd (ReadSession ex_Decoder ex_fs ''/c/projects/-b/bad.jsonl'') = Inl NoMessagesFound"
    by blast
  from inst d e r
  have w: "Warn_read_session_file ''/c/projects/-b/bad.jsonl'' NoMessagesFound
     \<in> set (fst (scanProjectSessions ex_Decoder ex_fs ''/c/projects/-b'' ''-b''))"
    by simp
  have ss: "map ses_ID (sessions_of (scanProjectSessions ex_Decoder ex_fs ''/c/projects/-b'' ''-b'')) =
     [''s2'', ''s3'']"
    by code_simp
  have ps: "map prj_ID (projects_of (ScanProjects ex_Decoder ex_fs (ex_Scanner 0))) = [''-a'', ''-b'']"
    by code_simp
  from o u r d ss w ps show ?thesis by blast
qed

text \<open>
  C8, as stated: every todo file whose name splits on \<^verbatim>\<open>-agent-\<close> into a pair gives a
  todo list attached to the project. In the example archive the name \<^verbatim>\<open>s2-agent-y.json\<close>
  splits into a pair, the file holds the empty array, and no project gets a todo list for
  session \<^verbatim>\<open>s2\<close>: the scanner keeps a todo list only when the file has at least one todo.
\<close>

theorem scanProjectTodos_attached_counterexample:
  "IncludeTodos (options (ex_Scanner 0)) \<and>
   ReadDir ex_fs (filepath_Join (basePath (ex_Scanner 0)) ''todos'') =
     Some [ex_file ''s1-agent-x.json'', ex_file ''s2-agent-y.json'', ex_file ''notes.json''] \<and>
   Split ''s2-agent-y.json'' ''-agent-'' = [''s2'', ''y.json''] \<and>
   map todo_session_ids (projects_of (ScanProjects ex_Decoder ex_fs (ex_Scanner 0))) =
     [[''s1''], [''s1'']]"
  by code_simp

text \<open>
  C8, amended. When todo inclusion is requested, every returned project, the one whose
  session completed the session limit apart, has as its todo lists those of the archive:
  one for every entry of the todos directory that is a file with suffix \<^verbatim>\<open>.json\<close>, whose
  name splits on \<^verbatim>\<open>-agent-\<close> into exactly two parts and whose file reads as an array of
  todos that is not empty, in listing order (\<open>entry_todolist\<close>), with no cross-check
  against the project: \<^verbatim>\<open>scanProjectTodos\<close> does not depend on the project identifier.
  The name of the file of an attached list is its session identifier, the separator, its
  agent identifier and the suffix; the only warnings are those of files that fail to read.
  A missing todos directory yields no todo list, no warning and no error.
\<close>

theorem scanProjectTodos_attached:
  assumes "IncludeTodos (options s)" and "snd (ScanProjects J fs s) = Inr ps"
  shows "(\<forall>p\<in>set (if 0 < MaxSessions (options s) \<and> total_sessions ps = nat (MaxSessions (options s))
                    then butlast ps else ps).
        prj_TodoLists p = archive_todos J fs s) \<and>
     (Stat_IsNotExist fs (filepath_Join (basePath s) ''todos'') \<longrightarrow>
        scanProjectTodos J fs s projectID = ([], Inr []) \<and> archive_todos J fs s = []) \<and>
     (\<not> Stat_IsNotExist fs (filepath_Join (basePath s) ''todos'') \<and>
      ReadDir fs (filepath_Join (basePath s) ''todos'') = Some entries \<longrightarrow>
        scanProjectTodos J fs s projectID =
          (concat (map (entry_todo_warnings J fs (filepath_Join (basePath s) ''todos'')) entries),
           Inr (List.map_filter (entry_todolist J fs (filepath_Join (basePath s) ''todos'')) entries)) \<and>
        archive_todos J fs s =
          List.map_filter (entry_todolist J fs (filepath_Join (basePath s) ''todos'')) entries) \<and>
     (entry_todolist J fs todosPath entry = Some todoList \<longrightarrow>
        de_Name entry = tl_SessionID todoList @ ''-agent-'' @ tl_AgentID todoList @ ''.json'' \<and>
        \<not> de_IsDir entry \<and> tl_Todos todoList \<noteq> [] \<and>
        TodoReader_Read J fs (filepath_Join todosPath (de_Name entry)) = Inr (tl_Todos todoList)) \<and>
     scanProjectTodos J fs s projectID = scanProjectTodos J fs s projectID'"
proof -
  from ScanProjects_completed_projects [OF assms(2)] obtain ps0 where
    ps0: "snd (ScanProjects J fs (s\<lparr>options := (options s)\<lparr>MaxSessions := 0\<rparr>\<rparr>)) = Inr ps0"
    and pre: "prefix (if 0 < MaxSessions (options s) \<and> total_sessions ps = nat (MaxSessions (options s))
             then butlast ps else ps) ps0"
    by blast
  from pre have "set (if 0 < MaxSessions (options s) \<and> total_sessions ps = nat (MaxSessions (options s))
             then butlast ps else ps) \<subseteq> set ps0" by (rule set_mono_prefix)
  then have a: "\<forall>p\<in>set (if 0 < MaxSessions (options s) \<and> total_sessions ps = nat (MaxSessions (options s))
                    then butlast ps else ps).
        prj_TodoLists p = archive_todos J fs s"
    using ScanProjects_unlimited_TodoLists [OF ps0] assms(1) by auto
  have b: "Stat_IsNotExist fs (filepath_Join (basePath s) ''todos'') \<longrightarrow>
        scanProjectTodos J fs s projectID = ([], Inr []) \<and> archive_todos J fs s = []"
    by (simp add: scanProjectTodos_def archive_todos_def)
  have c: "\<not> Stat_IsNotExist fs (filepath_Join (basePath s) ''todos'') \<and>
      ReadDir fs (filepath_Join (basePath s) ''todos'') = Some entries \<longrightarrow>
        scanProjectTodos J fs s projectID =
          (concat (map (entry_todo_warnings J fs (filepath_Join (basePath s) ''todos'')) entries),
           Inr (List.map_filter (entry_todolist J fs (filepath_Join (basePath s) ''todos'')) entries)) \<and>
        archive_todos J fs s =
          List.map_filter (entry_todolist J fs (filepath_Join (basePath s) ''todos'')) entries"
    by (simp add: scanProjectTodos_eq archive_todos_def)
  have d: "scanProjectTodos J fs s projectID = scanProjectTodos J fs s projectID'"
    by (simp add: scanProjectTodos_def)
  have e: "entry_todolist J fs todosPath entry = Some todoList \<longrightarrow>
        de_Name entry = tl_SessionID todoList @ ''-agent-'' @ tl_AgentID todoList @ ''.json'' \<and>
        \<not> de_IsDir entry \<and> tl_Todos todoList \<noteq> [] \<and>
        TodoReader_Read J fs (filepath_Join todosPath (de_Name entry)) = Inr (tl_Todos todoList)"
    using entry_todolist_name by blast
  from a b c d e show ?thesis by blast
qed

theorem scanProjectTodos_attached_witness:
  "IncludeTodos (options (ex_Scanner 0)) \<and>
   snd (ScanProjects ex_Decoder ex_fs (ex_Scanner 0)) =
     Inr (projects_of (ScanProjects ex_Decoder ex_fs (ex_Scanner 0))) \<and>
   map todo_session_ids (projects_of (ScanProjects ex_Decoder ex_fs (ex_Scanner 0))) =
     [[''s1''], [''s1'']] \<and>
   map tl_SessionID (archive_todos ex_Decoder ex_fs (ex_Scanner 0)) = [''s1''] \<and>
   entry_todolist ex_Decoder ex_fs ''/c/todos'' (ex_file ''s1-agent-x.json'') =
     Some \<lparr>tl_SessionID = ''s1'', tl_AgentID = ''x'',
           tl_Todos = [ex_todo ''1'' ''completed'', ex_todo ''2'' ''pending'']\<rparr> \<and>
   de_Name (ex_file ''s1-agent-x.json'') = ''s1'' @ ''-agent-'' @ ''x'' @ ''.json'' \<and>
   Stat_IsNotExist (ex_fs\<lparr>Stat_IsNotExist := (\<lambda>p. p \<noteq> ''/c/projects'')\<rparr>)
     (filepath_Join (basePath (ex_Scanner 0)) ''todos'') \<and>
   scanProjectTodos ex_Decoder (ex_fs\<lparr>Stat_IsNotExist := (\<lambda>p. p \<noteq> ''/c/projects'')\<rparr>)
     (ex_Scanner 0) ''-a'' = ([], Inr [])"
proof -
  have i: "IncludeTodos (options (ex_Scanner 0))"
    by (simp add: ex_Scanner_def ex_options_def)
  have r: "snd (ScanProjects ex_Decoder ex_fs (ex_Scanner 0)) =
     Inr (projects_of (ScanProjects ex_Decoder ex_fs (ex_Scanner 0)))"
    by code_simp
  have r': "snd (ScanProjects ex_Decoder (ex_fs\<lparr>Stat_IsNotExist := (\<lambda>p. p \<noteq> ''/c/projects'')\<rparr>)
       (ex_Scanner 0)) =
     Inr (projects_of (ScanProjects ex_Decoder
       (ex_fs\<lparr>Stat_IsNotExist := (\<lambda>p. p \<noteq> ''/c/projects'')\<rparr>) (ex_Scanner 0)))"
    by code_simp
  have ids: "map todo_session_ids (projects_of (ScanProjects ex_Decoder ex_fs (ex_Scanner 0))) =
     [[''s1''], [''s1'']]"
    by code_simp
  have a: "map tl_SessionID (archive_todos ex_Decoder ex_fs (ex_Scanner 0)) = [''s1'']"
    by code_simp
  have et: "entry_todolist ex_Decoder ex_fs ''/c/todos'' (ex_file ''s1-agent-x.json'') =
     Some \<lparr>tl_SessionID = ''s1'', tl_AgentID = ''x'',
           tl_Todos = [ex_todo ''1'' ''completed'', ex_todo ''2'' ''pending'']\<rparr>"
    by code_simp
  have missing: "Stat_IsNotExist (ex_fs\<lparr>Stat_IsNotExist := (\<lambda>p. p \<noteq> ''/c/projects'')\<rparr>)
     (filepath_Join (basePath (ex_Scanner 0)) ''todos'')"
    by (simp add: ex_Scanner_def filepath_Join_def)
  from scanProjectTodos_attached [OF i r', of "''-a''"] missing
  have none: "scanProjectTodos ex_Decoder (ex_fs\<lparr>Stat_IsNotExist := (\<lambda>p. p \<noteq> ''/c/projects'')\<rparr>)
     (ex_Scanner 0) ''-a'' = ([], Inr [])"
    by blast
  from scanProjectTodos_attached [where todosPath = "''/c/todos''"
      and entry = "ex_file ''s1-agent-x.json''"
      and todoList = "\<lparr>tl_SessionID = ''s1'', tl_AgentID = ''x'',
        tl_Todos = [ex_todo ''1'' ''completed'', ex_todo ''2'' ''pending'']\<rparr>", OF i r] et
  have name: "de_Name (ex_file ''s1-agent-x.json'') = ''s1'' @ ''-agent-'' @ ''x'' @ ''.json''"
    by simp
  from i r ids a et name missing none show ?thesis
    by blast
qed

text \<open>
  C10. When a scan with \<^verbatim>\<open>MaxSessions = m > 0\<close> returns projects holding \<open>m\<close> sessions in
  total, that is, when the limit was reached while a retained session was added, the
  last project returned is the one that was being filled and it has no todo lists,
  whether or not todo inclusion was requested. The projects before it are those the scan
  without a limit returns first, unchanged: they keep the todo lists of the archive when
  todo inclusion was requested. In the loop itself: when the inner loop over the sessions
  of a project directory reports the limit, the outer loop returns at once the warnings
  of that directory and the accumulated projects followed by the project being filled,
  which holds a session and no todo list.
\<close>

theorem ScanProjects_cap_without_todos:
  assumes "0 < MaxSessions (options s)" and "snd (ScanProjects J fs s) = Inr ps"
    and "total_sessions ps = nat (MaxSessions (options s))"
  shows "ps \<noteq> [] \<and> prj_TodoLists (last ps) = [] \<and>
     (\<exists>ps0. snd (ScanProjects J fs (s\<lparr>options := (options s)\<lparr>MaxSessions := 0\<rparr>\<rparr>)) = Inr ps0 \<and>
        prefix (butlast ps) ps0) \<and>
     (\<forall>p\<in>set (butlast ps).
        prj_TodoLists p = (if IncludeTodos (options s) then archive_todos J fs s else [])) \<and>
     (de_IsDir entry \<and> shouldProcessProject s (de_Name entry) \<and>
      scanProjectSessions J fs (filepath_Join pp (de_Name entry)) (de_Name entry) = (ws, Inr sessions) \<and>
      ScanProjects_sessions s sessions (NewProject (de_Name entry)) n = (p1, n1, True) \<longrightarrow>
        ScanProjects_loop J fs s pp (entry # rest) projects n = (ws, projects @ [p1]) \<and>
        prj_Sessions p1 \<noteq> [] \<and> prj_TodoLists p1 = [])"
proof -
  have step: "de_IsDir entry \<and> shouldProcessProject s (de_Name entry) \<and>
      scanProjectSessions J fs (filepath_Join pp (de_Name entry)) (de_Name entry) = (ws, Inr sessions) \<and>
      ScanProjects_sessions s sessions (NewProject (de_Name entry)) n = (p1, n1, True) \<longrightarrow>
        ScanProjects_loop J fs s pp (entry # rest) projects n = (ws, projects @ [p1]) \<and>
        prj_Sessions p1 \<noteq> [] \<and> prj_TodoLists p1 = []"
    using ScanProjects_loop_step_capped [of entry s J fs pp ws sessions n p1 n1 rest projects]
      ScanProjects_sessions_capped_nonempty [of s sessions "NewProject (de_Name entry)" n p1 n1]
      ScanProjects_sessions_TodoLists [of s sessions "NewProject (de_Name entry)" n p1 n1 True]
    by (simp add: NewProject_def del: ScanProjects_loop.simps)
  from ScanProjects_completed_projects [OF assms(2)] assms(1,3) obtain ps0 where
    ps0: "snd (ScanProjects J fs (s\<lparr>options := (options s)\<lparr>MaxSessions := 0\<rparr>\<rparr>)) = Inr ps0"
    and pre: "prefix (butlast ps) ps0" and last: "ps \<noteq> []" "prj_TodoLists (last ps) = []"
    by auto
  from pre have "set (butlast ps) \<subseteq> set ps0" by (rule set_mono_prefix)
  then have "\<forall>p\<in>set (butlast ps).
        prj_TodoLists p = (if IncludeTodos (options s) then archive_todos J fs s else [])"
    using ScanProjects_unlimited_TodoLists [OF ps0] by blast
  with ps0 pre last step show ?thesis by blast
qed

theorem ScanProjects_cap_without_todos_witness:
  "0 < MaxSessions (options (ex_Scanner 2)) \<and> IncludeTodos (options (ex_Scanner 2)) \<and>
   snd (ScanProjects ex_Decoder ex_fs (ex_Scanner 2)) =
     Inr (projects_of (ScanProjects ex_Decoder ex_fs (ex_Scanner 2))) \<and>
   total_sessions (projects_of (ScanProjects ex_Decoder ex_fs (ex_Scanner 2))) =
     nat (MaxSessions (options (ex_Scanner 2))) \<and>
   map todo_session_ids (projects_of (ScanProjects ex_Decoder ex_fs (ex_Scanner 2))) = [[''s1''], []] \<and>
   prj_TodoLists (last (projects_of (ScanProjects ex_Decoder ex_fs (ex_Scanner 2)))) = [] \<and>
   de_IsDir (ex_dir ''-b'') \<and> shouldProcessProject (ex_Scanner 2) (de_Name (ex_dir ''-b'')) \<and>
   ScanProjects_sessions (ex_Scanner 2)
     (sessions_of (scanProjectSessions ex_Decoder ex_fs ''/c/projects/-b'' ''-b''))
     (NewProject (de_Name (ex_dir ''-b''))) 1 =
     (last (projects_of (ScanProjects ex_Decoder ex_fs (ex_Scanner 2))), 2, True) \<and>
   snd (ScanProjects_loop ex_Decoder ex_fs (ex_Scanner 2) ''/c/projects''
          (ex_dir ''-b'' # [ex_dir ''-c'']) [] 1) =
     [] @ [last (projects_of (ScanProjects ex_Decoder ex_fs (ex_Scanner 2)))]"
proof -
  have m: "0 < MaxSessions (options (ex_Scanner 2))"
    by (simp add: ex_Scanner_def)
  have i: "IncludeTodos (options (ex_Scanner 2))"
    by (simp add: ex_Scanner_def ex_options_def)
  have r: "snd (ScanProjects ex_Decoder ex_fs (ex_Scanner 2)) =
     Inr (projects_of (ScanProjects ex_Decoder ex_fs (ex_Scanner 2)))"
    by code_simp
  have t: "total_sessions (projects_of (ScanProjects ex_Decoder ex_fs (ex_Scanner 2))) =
     nat (MaxSessions (options (ex_Scanner 2)))"
    by code_simp
  have ids: "map todo_session_ids (projects_of (ScanProjects ex_Decoder ex_fs (ex_Scanner 2))) =
      [[''s1''], []]"
    by code_simp
  have d: "de_IsDir (ex_dir ''-b'')" "shouldProcessProject (ex_Scanner 2) (de_Name (ex_dir ''-b''))"
    by code_simp+
  have sp: "scanProjectSessions ex_Decoder ex_fs (filepath_Join ''/c/projects'' (de_Name (ex_dir ''-b'')))
     (de_Name (ex_dir ''-b'')) =
     ([Warn_parse_line 2, Warn_read_session_file ''/c/projects/-b/bad.jsonl'' NoMessagesFound,
       Warn_parse_content ''a2''],
      Inr (sessions_of (scanProjectSessions ex_Decoder ex_fs ''/c/projects/-b'' ''-b'')))"
    by code_simp
  have ss: "ScanProjects_sessions (ex_Scanner 2)
     (sessions_of (scanProjectSessions ex_Decoder ex_fs ''/c/projects/-b'' ''-b''))
     (NewProject (de_Name (ex_dir ''-b''))) 1 =
     (last (projects_of (ScanProjects ex_Decoder ex_fs (ex_Scanner 2))), 2, True)"
    by code_simp
  note inst = ScanProjects_cap_without_todos [where entry = "ex_dir ''-b''"
      and pp = "''/c/projects''"
      and ws = "[Warn_parse_line 2,
        Warn_read_session_file ''/c/projects/-b/bad.jsonl'' NoMessagesFound, Warn_parse_content ''a2'']"
      and sessions = "sessions_of (scanProjectSessions ex_Decoder ex_fs ''/c/projects/-b'' ''-b'')"
      and n = 1 and ?p1.0 = "last (projects_of (ScanProjects ex_Decoder ex_fs (ex_Scanner 2)))"
      and ?n1.0 = 2 and rest = "[ex_dir ''-c'']" and projects = "[]", OF m r t]
  from inst d sp ss
  have lp: "ScanProjects_loop ex_Decoder ex_fs (ex_Scanner 2) ''/c/projects''
          (ex_dir ''-b'' # [ex_dir ''-c'']) [] 1 =
     ([Warn_parse_line 2, Warn_read_session_file ''/c/projects/-b/bad.jsonl'' NoMessagesFound,
       Warn_parse_content ''a2''],
      [] @ [last (projects_of (ScanProjects ex_Decoder ex_fs (ex_Scanner 2)))])"
    by blast
  have lp': "snd (ScanProjects_loop ex_Decoder ex_fs (ex_Scanner 2) ''/c/projects''
          (ex_dir ''-b'' # [ex_dir ''-c'']) [] 1) =
     [] @ [last (projects_of (ScanProjects ex_Decoder ex_fs (ex_Scanner 2)))]"
    unfolding lp by (rule snd_conv)
  from inst m i r t ids d ss lp' show ?thesis
    by blast
qed

section \<open>Claims about the date filter\<close>

text \<open>
  C2. The inclusion test of the scanner retains a session if and only if the start of
  the filter is absent or not after the session's \<^verbatim>\<open>EndTime\<close>, and the end of the filter
  is absent or not before it. Both bounds are inclusive, and the session's \<^verbatim>\<open>StartTime\<close>
  plays no role: replacing it by any other time leaves the decision as it is.
\<close>

theorem shouldIncludeSession_iff:
  "(shouldIncludeSession opts session \<longleftrightarrow>
      (case StartDate opts of None \<Rightarrow> True | Some start \<Rightarrow> start \<le> ses_EndTime session) \<and>
      (case EndDate opts of None \<Rightarrow> True | Some end \<Rightarrow> ses_EndTime session \<le> end)) \<and>
   shouldIncludeSession opts (session\<lparr>ses_StartTime := t\<rparr>) =
     shouldIncludeSession opts session"
  by (auto simp: shouldIncludeSession_def Before_def After_def split: option.splits)

theorem shouldIncludeSession_iff_witness:
  "shouldIncludeSession
     \<lparr>StartDate = Some 15, EndDate = Some 20, ProjectPaths = [], IncludeTodos = False,
      IncludeShellSnapshots = False, MaxSessions = 0\<rparr>
     (zero_Session\<lparr>ses_StartTime := 14, ses_EndTime := 15\<rparr>) \<and>
   \<not> shouldIncludeSession
     \<lparr>StartDate = Some 17, EndDate = Some 20, ProjectPaths = [], IncludeTodos = False,
      IncludeShellSnapshots = False, MaxSessions = 0\<rparr>
     (zero_Session\<lparr>ses_StartTime := 14, ses_EndTime := 16\<rparr>)"
  using shouldIncludeSession_iff [of
      "\<lparr>StartDate = Some 15, EndDate = Some 20, ProjectPaths = [], IncludeTodos = False,
        IncludeShellSnapshots = False, MaxSessions = 0\<rparr>"
      "zero_Session\<lparr>ses_StartTime := 14, ses_EndTime := 15\<rparr>" 14]
    shouldIncludeSession_iff [of
      "\<lparr>StartDate = Some 17, EndDate = Some 20, ProjectPaths = [], IncludeTodos = False,
        IncludeShellSnapshots = False, MaxSessions = 0\<rparr>"
      "zero_Session\<lparr>ses_StartTime := 14, ses_EndTime := 16\<rparr>" 14]
  by (simp add: zero_Session_def)

end
